theory Spec2Isabelle
  imports Complex_Main
begin

section \<open>URL normalisation (src/util/mapbox.js, lines 17-134)\<close>

text \<open>
  JavaScript strings are modelled as \<^typ>\<open>string\<close>; one \<^typ>\<open>char\<close> stands for one code
  unit below 256. The two line terminators that exist in this range are line feed and
  carriage return. Values of type \<open>?string\<close> are \<^typ>\<open>string option\<close>, with \<open>None\<close> for
  \<open>null\<close> and \<open>undefined\<close> (the code never tells the two apart).
\<close>

datatype error = MalformedLocator | MissingToken | SecretTokenUsed | TransportError

record UrlObject =
  protocol :: string
  authority :: string
  path :: string
  params :: "string list"

text \<open>The parts of \<open>config\<close> and \<open>browser\<close> (both outside this file) that the code reads.\<close>

record Config =
  API_URL :: string
  EVENTS_URL :: string
  REQUIRE_ACCESS_TOKEN :: bool
  ACCESS_TOKEN :: "string option"

record Browser =
  devicePixelRatio :: real
  supportsWebp :: bool

text \<open>Truthiness of a \<open>?string\<close> and of a \<open>?number\<close>, and \<open>x || ''\<close>.\<close>

fun truthy :: "string option \<Rightarrow> bool" where
  "truthy None = False"
| "truthy (Some s) = (s \<noteq> [])"

fun truthy_num :: "int option \<Rightarrow> bool" where
  "truthy_num None = False"
| "truthy_num (Some n) = (n \<noteq> 0)"

fun or_empty :: "string option \<Rightarrow> string" where
  "or_empty None = []"
| "or_empty (Some s) = s"

text \<open>\<open>s.indexOf(p) === 0\<close>\<close>

definition starts_with :: "string \<Rightarrow> string \<Rightarrow> bool" where
  "starts_with p s = (take (length p) s = p)"

text \<open>Character classes of the regular expressions: \<open>\w\<close>, \<open>\d\<close>, and what \<open>.\<close> excludes.\<close>

definition word_char :: "char \<Rightarrow> bool" where
  "word_char c =
     (let n = (of_char c :: nat) in
      (65 \<le> n \<and> n \<le> 90) \<or> (97 \<le> n \<and> n \<le> 122) \<or> (48 \<le> n \<and> n \<le> 57) \<or> n = 95)"

definition digit_char :: "char \<Rightarrow> bool" where
  "digit_char c = (let n = (of_char c :: nat) in 48 \<le> n \<and> n \<le> 57)"

definition line_terminator :: "char \<Rightarrow> bool" where
  "line_terminator c = (c = CHR 0x0A \<or> c = CHR 0x0D)"

definition authority_char :: "char \<Rightarrow> bool" where
  "authority_char c = (c \<noteq> CHR ''/'' \<and> c \<noteq> CHR ''?'')"

definition not_question :: "char \<Rightarrow> bool" where
  "not_question c = (c \<noteq> CHR ''?'')"

text \<open>\<open>s.split(sep)\<close> for a one-character separator (\<open>cur\<close> is the piece being read), and
  \<open>xs.join(sep)\<close>.\<close>

fun split_from :: "char \<Rightarrow> string \<Rightarrow> string \<Rightarrow> string list" where
  "split_from sep cur [] = [cur]"
| "split_from sep cur (c # cs) =
     (if c = sep then cur # split_from sep [] cs else split_from sep (cur @ [c]) cs)"

definition split_on :: "char \<Rightarrow> string \<Rightarrow> string list" where
  "split_on sep s = split_from sep [] s"

fun join :: "string \<Rightarrow> string list \<Rightarrow> string" where
  "join sep [] = []"
| "join sep [x] = x"
| "join sep (x # y # ys) = x @ sep @ join sep (y # ys)"

text \<open>
  \<open>parseUrl\<close>, lines 116-129. The expression is
  \<^verbatim>\<open>^(\w+):\/\/([^/?]*)(\/[^?]+)?\??(.+)?\<close>.
  Everything after the second group is optional, so the greedy choice of every
  quantifier succeeds and no backtracking changes a group: group 1 is the longest run of
  word characters (a shorter run would be followed by a word character, not by \<open>:\<close>),
  group 2 the longest run without \<open>/\<close> and \<open>?\<close>, group 3 a \<open>/\<close> with at least one following
  character that is not \<open>?\<close>, extended up to the next \<open>?\<close>, then one optional \<open>?\<close>, and
  group 4 the longest non-empty run up to the next line terminator. What follows is not
  matched and is dropped. An unmatched group is \<open>None\<close>.
\<close>

definition path_group :: "string \<Rightarrow> string option" where
  "path_group r =
     (case r of
        c # d # ds \<Rightarrow>
          if c = CHR ''/'' \<and> d \<noteq> CHR ''?'' then Some (c # takeWhile not_question (d # ds))
          else None
      | _ \<Rightarrow> None)"

definition skip_question :: "string \<Rightarrow> string" where
  "skip_question r = (case r of c # cs \<Rightarrow> if c = CHR ''?'' then cs else r | [] \<Rightarrow> [])"

definition parseUrl :: "string \<Rightarrow> error + UrlObject" where
  "parseUrl url =
     (let g1 = takeWhile word_char url;
          r1 = dropWhile word_char url
      in if g1 = [] \<or> \<not> starts_with ''://'' r1 then Inl MalformedLocator
         else
           let r2 = drop 3 r1;
               g2 = takeWhile authority_char r2;
               r3 = dropWhile authority_char r2;
               g3 = path_group r3;
               r4 = (case g3 of None \<Rightarrow> r3 | Some p \<Rightarrow> drop (length p) r3);
               g4 = takeWhile (\<lambda>c. \<not> line_terminator c) (skip_question r4)
           in Inr \<lparr>protocol = g1,
                    authority = g2,
                    path = (case g3 of None \<Rightarrow> ''/'' | Some p \<Rightarrow> p),
                    params = (if g4 = [] then [] else split_on (CHR ''&'') g4)\<rparr>)"

text \<open>\<open>formatUrl\<close>, lines 131-134.\<close>

definition formatUrl :: "UrlObject \<Rightarrow> string" where
  "formatUrl obj =
     protocol obj @ ''://'' @ authority obj @ path obj @
     (if params obj = [] then [] else ''?'' @ join ''&'' (params obj))"

text \<open>\<open>makeAPIURL\<close>, lines 24-43. The two \<open>throw\<close> statements are the errors
  \<open>MissingToken\<close> and \<open>SecretTokenUsed\<close>; \<open>parseUrl\<close> of the configured origin may throw too.\<close>

definition makeAPIURL :: "Config \<Rightarrow> UrlObject \<Rightarrow> string option \<Rightarrow> error + string" where
  "makeAPIURL cfg urlObject accessToken =
     (case parseUrl (API_URL cfg) of
        Inl e \<Rightarrow> Inl e
      | Inr apiUrlObject \<Rightarrow>
          let u1 = urlObject\<lparr>protocol := protocol apiUrlObject,
                             authority := authority apiUrlObject\<rparr>;
              u2 = (if path apiUrlObject \<noteq> ''/''
                    then u1\<lparr>path := path apiUrlObject @ path u1\<rparr> else u1)
          in if \<not> REQUIRE_ACCESS_TOKEN cfg then Inr (formatUrl u2)
             else
               (case (if truthy accessToken then accessToken else ACCESS_TOKEN cfg) of
                  None \<Rightarrow> Inl MissingToken
                | Some [] \<Rightarrow> Inl MissingToken
                | Some (c # cs) \<Rightarrow>
                    if c = CHR ''s'' then Inl SecretTokenUsed
                    else Inr (formatUrl (u2\<lparr>params := params u2 @ [''access_token='' @ c # cs]\<rparr>))))"

text \<open>\<open>isMapboxURL\<close>, lines 45-47.\<close>

definition isMapboxURL :: "string \<Rightarrow> bool" where
  "isMapboxURL url = starts_with ''mapbox:'' url"

text \<open>
  \<open>isMapboxHTTPURL\<close>, lines 49-52, tests
  \<^verbatim>\<open>/^((https?:)?\/\/)?([^\/]+\.)?mapbox\.c(n|om)(\/|\?|$)/i\<close>.
  A test only asks whether some match exists, so the expression is kept as a syntax tree
  and \<open>rests\<close> lists the remainders of the input after every way of matching a prefix.
\<close>

datatype rx = Eps | Chr "char \<Rightarrow> bool" | Seq rx rx | Alt rx rx | Opt rx | Plus "char \<Rightarrow> bool" | Eoi

fun plus_rests :: "(char \<Rightarrow> bool) \<Rightarrow> string \<Rightarrow> string list" where
  "plus_rests P [] = []"
| "plus_rests P (c # cs) = (if P c then cs # plus_rests P cs else [])"

fun rests :: "rx \<Rightarrow> string \<Rightarrow> string list" where
  "rests Eps s = [s]"
| "rests (Chr P) s = (case s of [] \<Rightarrow> [] | c # cs \<Rightarrow> if P c then [cs] else [])"
| "rests (Seq a b) s = concat (map (rests b) (rests a s))"
| "rests (Alt a b) s = rests a s @ rests b s"
| "rests (Opt a) s = rests a s @ [s]"
| "rests (Plus P) s = plus_rests P s"
| "rests Eoi s = (if s = [] then [s] else [])"

text \<open>Under the \<open>i\<close> flag a lower-case letter of the pattern also matches its upper case.\<close>

definition ci :: "char \<Rightarrow> char \<Rightarrow> bool" where
  "ci p c =
     (c = p \<or> (97 \<le> (of_char p :: nat) \<and> (of_char p :: nat) \<le> 122 \<and>
                (of_char c :: nat) + 32 = of_char p))"

fun lit :: "string \<Rightarrow> rx" where
  "lit [] = Eps"
| "lit (c # cs) = Seq (Chr (ci c)) (lit cs)"

definition mapboxHTTPURLRe :: rx where
  "mapboxHTTPURLRe =
     Seq (Opt (Seq (Opt (Seq (lit ''http'') (Seq (Opt (lit ''s'')) (lit '':'')))) (lit ''//'')))
    (Seq (Opt (Seq (Plus (\<lambda>c. c \<noteq> CHR ''/'')) (lit ''.'')))
    (Seq (lit ''mapbox.c'')
    (Seq (Alt (lit ''n'') (lit ''om''))
         (Alt (lit ''/'') (Alt (lit ''?'') Eoi)))))"

definition isMapboxHTTPURL :: "string \<Rightarrow> bool" where
  "isMapboxHTTPURL url = (rests mapboxHTTPURLRe url \<noteq> [])"

text \<open>The resource-specific wrappers, lines 56-88.\<close>

definition normalizeStyleURL :: "Config \<Rightarrow> string \<Rightarrow> string option \<Rightarrow> error + string" where
  "normalizeStyleURL cfg url accessToken =
     (if \<not> isMapboxURL url then Inr url
      else case parseUrl url of
             Inl e \<Rightarrow> Inl e
           | Inr urlObject \<Rightarrow>
               makeAPIURL cfg (urlObject\<lparr>path := ''/styles/v1'' @ path urlObject\<rparr>) accessToken)"

definition normalizeGlyphsURL :: "Config \<Rightarrow> string \<Rightarrow> string option \<Rightarrow> error + string" where
  "normalizeGlyphsURL cfg url accessToken =
     (if \<not> isMapboxURL url then Inr url
      else case parseUrl url of
             Inl e \<Rightarrow> Inl e
           | Inr urlObject \<Rightarrow>
               makeAPIURL cfg (urlObject\<lparr>path := ''/fonts/v1'' @ path urlObject\<rparr>) accessToken)"

definition normalizeSourceURL :: "Config \<Rightarrow> string \<Rightarrow> string option \<Rightarrow> error + string" where
  "normalizeSourceURL cfg url accessToken =
     (if \<not> isMapboxURL url then Inr url
      else case parseUrl url of
             Inl e \<Rightarrow> Inl e
           | Inr urlObject \<Rightarrow>
               makeAPIURL cfg
                 (urlObject\<lparr>path := ''/v4/'' @ authority urlObject @ ''.json'',
                            params := params urlObject @ [''secure'']\<rparr>)
                 accessToken)"

definition normalizeSpriteURL ::
  "Config \<Rightarrow> string \<Rightarrow> string \<Rightarrow> string \<Rightarrow> string option \<Rightarrow> error + string" where
  "normalizeSpriteURL cfg url format extension accessToken =
     (case parseUrl url of
        Inl e \<Rightarrow> Inl e
      | Inr urlObject \<Rightarrow>
          if \<not> isMapboxURL url
          then Inr (formatUrl (urlObject\<lparr>path := path urlObject @ format @ extension\<rparr>))
          else makeAPIURL cfg
                 (urlObject\<lparr>path := ''/styles/v1'' @ path urlObject @ ''/sprite'' @ format @ extension\<rparr>)
                 accessToken)"

text \<open>
  \<open>replaceTempAccessToken\<close>, lines 108-114: a loop over the indices of the array that
  overwrites entries in place.
\<close>

function replaceTempAccessToken_from :: "Config \<Rightarrow> nat \<Rightarrow> string list \<Rightarrow> string list" where
  "replaceTempAccessToken_from cfg i ps =
     (if i < length ps
      then replaceTempAccessToken_from cfg (Suc i)
             (if starts_with ''access_token=tk.'' (ps ! i)
              then ps[i := ''access_token='' @ or_empty (ACCESS_TOKEN cfg)]
              else ps)
      else ps)"
  by pat_completeness auto
termination
  by (relation "measure (\<lambda>(cfg, i, ps). length ps - i)") auto

definition replaceTempAccessToken :: "Config \<Rightarrow> string list \<Rightarrow> string list" where
  "replaceTempAccessToken cfg ps = replaceTempAccessToken_from cfg 0 ps"

text \<open>
  \<open>normalizeTileURL\<close>, lines 90-106. \<^verbatim>\<open>/(\.(png|jpg)\d*)(?=$)/\<close> matches at a position
  exactly when the rest of the path is \<open>.png\<close> or \<open>.jpg\<close> followed by digits only; the
  first such position is replaced. In the replacement \<open>$1\<close> is the matched text.
\<close>

definition image_extension :: "string \<Rightarrow> bool" where
  "image_extension s =
     ((starts_with ''.png'' s \<or> starts_with ''.jpg'' s) \<and> list_all digit_char (drop 4 s))"

fun replace_image_extension :: "(string \<Rightarrow> string) \<Rightarrow> string \<Rightarrow> string" where
  "replace_image_extension repl [] = []"
| "replace_image_extension repl (c # cs) =
     (if image_extension (c # cs) then repl (c # cs)
      else c # replace_image_extension repl cs)"

definition normalizeTileURL ::
  "Config \<Rightarrow> Browser \<Rightarrow> string \<Rightarrow> string option \<Rightarrow> int option \<Rightarrow> error + string" where
  "normalizeTileURL cfg browser tileURL sourceURL tileSize =
     (if \<not> truthy sourceURL \<or> \<not> isMapboxURL (or_empty sourceURL) then Inr tileURL
      else case parseUrl tileURL of
             Inl e \<Rightarrow> Inl e
           | Inr urlObject \<Rightarrow>
               let suffix = (if 2 \<le> devicePixelRatio browser \<or> tileSize = Some 512
                             then ''@2x'' else []);
                   u1 = urlObject\<lparr>path :=
                          replace_image_extension
                            (\<lambda>g1. suffix @ (if supportsWebp browser then ''.webp'' else g1))
                            (path urlObject)\<rparr>
               in Inr (formatUrl (u1\<lparr>params := replaceTempAccessToken cfg (params u1)\<rparr>)))"

section \<open>Telemetry events (src/util/mapbox.js, lines 136-330)\<close>

subsection \<open>State\<close>

text \<open>
  \<open>eventData\<close> of a \<open>TelemetryEvent\<close>. Time stamps are integers (\<open>Date.now()\<close> returns whole
  milliseconds).
\<close>

record EventData =
  anonId :: "string option"
  lastSuccess :: "int option"
  accessToken :: "string option"

text \<open>
  A request as handed to \<open>postData\<close>. The body is kept as the object given to
  \<open>JSON.stringify\<close>; \<open>created\<close> holds the time stamp that \<open>toISOString\<close> formats, and
  \<open>enabled_telemetry\<close> is the field \<open>'enabled.telemetry'\<close>, present in the turnstile event only.
\<close>

record Payload =
  event :: string
  created :: int
  sdkIdentifier :: string
  sdkVersion :: string
  enabled_telemetry :: "bool option"
  userId :: "string option"

record RequestParameters =
  url :: string
  headers :: "(string \<times> string) list"
  body :: Payload

text \<open>
  The class \<open>TelemetryEvent\<close>, lines 136-145, and its two subclasses. The in-flight slot
  \<open>pendingRequest\<close> holds the handle that \<open>postData\<close> returned; the handle is represented by
  the request it stands for. An entry of the map-load queue is \<open>{id, timestamp}\<close>, an entry
  of the turnstile queue a bare time stamp.
\<close>

record 'e TelemetryEvent =
  eventData :: EventData
  queue :: "'e list"
  pendingRequest :: "RequestParameters option"

record MapLoadEntry =
  id_of :: int
  timestamp :: int

record MapLoadEvent = "MapLoadEntry TelemetryEvent" +
  success :: "int \<rightharpoonup> bool"

type_synonym TurnstileEvent = "int TelemetryEvent"

text \<open>
  What lies outside the module. The functions \<open>uuid\<close> and \<open>validateUuid\<close> of \<open>./util\<close>, the
  day of the month of a local date (\<open>new Date(t).getDate()\<close>) and the \<open>version\<close> of
  \<open>package.json\<close> are parameters.
\<close>

record Env =
  validUuid :: "string \<Rightarrow> bool"
  uuid :: "nat \<Rightarrow> string"
  getDate :: "int \<Rightarrow> int"
  version :: string

text \<open>
  Modelled from the spec: \<open>validateUuid\<close> is not in this file; the spec treats an absent
  identifier like one that fails validation, so \<open>null\<close> is invalid and a string is judged
  by the parameter.
\<close>

fun validateUuid :: "Env \<Rightarrow> string option \<Rightarrow> bool" where
  "validateUuid env None = False"
| "validateUuid env (Some s) = validUuid env s"

text \<open>
  The world the module acts on: the mutable \<open>config\<close>, \<open>localStorage\<close>, the transport and
  a trace of effects. A stored item is the object that \<open>JSON.parse\<close> makes of it, or
  \<open>Unparsable\<close> when reading or parsing it throws (the slot is written by \<open>saveEventData\<close>
  only, which stores an \<open>eventData\<close> object); an empty item is read like a missing one
  (\<open>if (data)\<close>). \<open>storageAvailable\<close> is the answer of the probe of \<open>./util\<close>, and
  \<open>quotaExceeded\<close> says that \<open>setItem\<close> throws.
  \<open>uuids\<close> counts the identifiers drawn from \<open>uuid()\<close>. The callback given to \<open>postData\<close> is
  kept with the variable it captured (\<open>id\<close> for a map-load event, \<open>nextUpdate\<close> for a
  turnstile event); \<open>outstanding\<close> lists the requests whose callback has not run yet.
\<close>

datatype stored = Unparsable | Object EventData

datatype callback = MapLoadDone int | TurnstileDone int

datatype effect = Warned string | Posted RequestParameters | Saved string EventData

record World =
  config :: Config
  storageAvailable :: bool
  quotaExceeded :: bool
  localStorage :: "string \<rightharpoonup> stored"
  uuids :: nat
  outstanding :: "(RequestParameters \<times> callback) list"
  effects :: "effect list"

text \<open>The result of a method: the error it threw, if any, and the state it left.\<close>

type_synonym 's outcome = "error option \<times> 's \<times> World"

text \<open>Modelled from the spec: \<open>warnOnce\<close> of \<open>./util\<close> logs a message the first time only.\<close>

definition warnOnce :: "string \<Rightarrow> World \<Rightarrow> World" where
  "warnOnce msg w =
     (if Warned msg \<in> set (effects w) then w else w\<lparr>effects := effects w @ [Warned msg]\<rparr>)"

text \<open>
  Modelled from the spec: \<open>postData\<close> of \<open>./ajax\<close> starts the request and returns; the
  callback runs later, once.
\<close>

definition postData :: "RequestParameters \<Rightarrow> callback \<Rightarrow> World \<Rightarrow> World" where
  "postData request cb w =
     w\<lparr>outstanding := outstanding w @ [(request, cb)],
       effects := effects w @ [Posted request]\<rparr>"

subsection \<open>The base class\<close>

definition telemEventKey :: string where
  "telemEventKey = ''mapbox.eventData''"

definition storageKey :: "Config \<Rightarrow> string" where
  "storageKey cfg = telemEventKey @ '':'' @ or_empty (ACCESS_TOKEN cfg)"

text \<open>\<open>fetchEventData\<close>, lines 147-162.\<close>

fun fetchEventData ::
  "('e, 'z) TelemetryEvent_scheme \<times> World \<Rightarrow> ('e, 'z) TelemetryEvent_scheme \<times> World" where
  "fetchEventData (st, w) =
     (if storageAvailable w
      then (case localStorage w (storageKey (config w)) of
              None \<Rightarrow> (st, w)
            | Some Unparsable \<Rightarrow> (st, warnOnce ''Unable to read from LocalStorage'' w)
            | Some (Object data) \<Rightarrow> (st\<lparr>eventData := data\<rparr>, w))
      else (st, w))"

text \<open>\<open>saveEventData\<close>, lines 164-176.\<close>

fun saveEventData :: "('e, 'z) TelemetryEvent_scheme \<times> World \<Rightarrow> World" where
  "saveEventData (st, w) =
     (if storageAvailable w
      then (if quotaExceeded w then warnOnce ''Unable to write to LocalStorage'' w
            else w\<lparr>localStorage := (localStorage w)(storageKey (config w) \<mapsto> Object (eventData st)),
                   effects := effects w @ [Saved (storageKey (config w)) (eventData st)]\<rparr>)
      else w)"

text \<open>
  \<open>queueRequest\<close>, lines 180-183. \<open>processRequests\<close> is the method of the subclass, so it
  is an argument here.
\<close>

definition queueRequest ::
  "(('e, 'z) TelemetryEvent_scheme \<times> World \<Rightarrow> ('e, 'z) TelemetryEvent_scheme outcome) \<Rightarrow> 'e \<Rightarrow>
   ('e, 'z) TelemetryEvent_scheme \<times> World \<Rightarrow> ('e, 'z) TelemetryEvent_scheme outcome" where
  "queueRequest processRequests date = (\<lambda>(st, w). processRequests (st\<lparr>queue := queue st @ [date]\<rparr>, w))"

text \<open>The identity guarantee shared by both subclasses (lines 218-220 and 278-281).\<close>

definition freshAnonId ::
  "Env \<Rightarrow> ('e, 'z) TelemetryEvent_scheme \<times> World \<Rightarrow> ('e, 'z) TelemetryEvent_scheme \<times> World" where
  "freshAnonId env = (\<lambda>(st, w).
     (st\<lparr>eventData := (eventData st)\<lparr>anonId := Some (uuid env (uuids w))\<rparr>\<rparr>,
      w\<lparr>uuids := Suc (uuids w)\<rparr>))"

text \<open>
  The request that both subclasses build for the events endpoint (lines 222-236 and
  296-312): the token goes into the query, the content type avoids a pre-flight request.
  \<open>parseUrl\<close> throws when the configured endpoint is not a locator.
\<close>

definition eventsRequest :: "Config \<Rightarrow> Payload \<Rightarrow> error + RequestParameters" where
  "eventsRequest cfg payload =
     (case parseUrl (EVENTS_URL cfg) of
        Inl e \<Rightarrow> Inl e
      | Inr eventsUrlObject \<Rightarrow>
          Inr \<lparr>url = formatUrl (eventsUrlObject\<lparr>params := params eventsUrlObject @
                        [''access_token='' @ or_empty (ACCESS_TOKEN cfg)]\<rparr>),
               headers = [(''Content-Type'', ''text/plain'')],
               body = payload\<rparr>)"

subsection \<open>\<open>MapLoadEvent\<close>, lines 186-247\<close>

definition new_MapLoadEvent :: "Config \<Rightarrow> MapLoadEvent" where
  "new_MapLoadEvent cfg =
     \<lparr>eventData = \<lparr>anonId = None, lastSuccess = None, accessToken = ACCESS_TOKEN cfg\<rparr>,
      queue = [], pendingRequest = None, success = Map.empty\<rparr>"

text \<open>Lines 214-220 of \<open>processRequests\<close>: load the event data if there is no identifier, and
  make a new identifier if the one at hand is not valid.\<close>

definition MapLoad_identify :: "Env \<Rightarrow> MapLoadEvent \<times> World \<Rightarrow> MapLoadEvent \<times> World" where
  "MapLoad_identify env = (\<lambda>(st, w).
     let (st2, w2) = (if \<not> truthy (anonId (eventData st)) then fetchEventData (st, w) else (st, w))
     in if \<not> validateUuid env (anonId (eventData st2)) then freshAnonId env (st2, w2)
        else (st2, w2))"

text \<open>\<open>processRequests\<close>, lines 207-246, up to the call of \<open>postData\<close>.\<close>

definition MapLoad_processRequests :: "Env \<Rightarrow> MapLoadEvent \<times> World \<Rightarrow> MapLoadEvent outcome" where
  "MapLoad_processRequests env = (\<lambda>(st, w).
     if pendingRequest st \<noteq> None \<or> queue st = [] then (None, st, w)
     else
       let entry = hd (queue st);
           st1 = st\<lparr>queue := tl (queue st)\<rparr>
       in if id_of entry \<noteq> 0 \<and> success st1 (id_of entry) = Some True then (None, st1, w)
          else
            case MapLoad_identify env (st1, w) of (st3, w3) \<Rightarrow>
              case eventsRequest (config w3)
                     \<lparr>event = ''map.load'',
                      created = timestamp entry,
                      sdkIdentifier = ''mapbox-gl-js'',
                      sdkVersion = version env,
                      enabled_telemetry = None,
                      userId = anonId (eventData st3)\<rparr> of
                Inl e \<Rightarrow> (Some e, st3, w3)
              | Inr request \<Rightarrow>
                  (None, st3\<lparr>pendingRequest := Some request\<rparr>,
                   postData request (MapLoadDone (id_of entry)) w3))"

text \<open>The callback given to \<open>postData\<close>, lines 238-245; \<open>id\<close> is the captured variable.\<close>

definition MapLoad_callback ::
  "Env \<Rightarrow> int \<Rightarrow> error option \<Rightarrow> MapLoadEvent \<times> World \<Rightarrow> MapLoadEvent outcome" where
  "MapLoad_callback env ident err = (\<lambda>(st, w).
     let st1 = st\<lparr>pendingRequest := None\<rparr>
     in case err of
          Some e \<Rightarrow> (None, st1, w)
        | None \<Rightarrow>
            let st2 = (if ident \<noteq> 0 then st1\<lparr>success := (success st1)(ident \<mapsto> True)\<rparr> else st1)
            in MapLoad_processRequests env (st2, saveEventData (st2, w)))"

text \<open>\<open>postMapLoadEvent\<close>, lines 197-205; \<open>now\<close> is the value of \<open>Date.now()\<close>.\<close>

definition postMapLoadEvent ::
  "Env \<Rightarrow> string list \<Rightarrow> int \<Rightarrow> int \<Rightarrow> MapLoadEvent \<times> World \<Rightarrow> MapLoadEvent outcome" where
  "postMapLoadEvent env tileUrls mapId now = (\<lambda>(st, w).
     if truthy (ACCESS_TOKEN (config w)) \<and> list_ex isMapboxHTTPURL tileUrls
     then queueRequest (MapLoad_processRequests env) \<lparr>id_of = mapId, timestamp = now\<rparr> (st, w)
     else (None, st, w))"

subsection \<open>\<open>TurnstileEvent\<close>, lines 250-324\<close>

definition new_TurnstileEvent :: "Config \<Rightarrow> TurnstileEvent" where
  "new_TurnstileEvent cfg =
     \<lparr>eventData = \<lparr>anonId = None, lastSuccess = None, accessToken = ACCESS_TOKEN cfg\<rparr>,
      queue = [], pendingRequest = None\<rparr>"

text \<open>
  Lines 268-290 of \<open>processRequests\<close>: the admission of the head of a non-empty queue. The
  result is the state, \<open>nextUpdate\<close> and \<open>dueForEvent\<close>. The quotient \<open>daysElapsed\<close> is taken
  in the reals; on whole milliseconds its comparisons with 1 and -1 come out the same in
  floating point.
\<close>

definition Turnstile_admit ::
  "Env \<Rightarrow> TurnstileEvent \<times> World \<Rightarrow> TurnstileEvent \<times> World \<times> int \<times> bool" where
  "Turnstile_admit env = (\<lambda>(st, w).
     let due0 = (truthy (accessToken (eventData st)) \<and>
                 accessToken (eventData st) \<noteq> ACCESS_TOKEN (config w));
         st1 = (if due0 then st\<lparr>eventData := (eventData st)\<lparr>anonId := None, lastSuccess := None\<rparr>\<rparr>
                else st);
         (st2, w2) = (if \<not> truthy (anonId (eventData st1)) \<or> \<not> truthy_num (lastSuccess (eventData st1))
                      then fetchEventData (st1, w) else (st1, w));
         invalid = (\<not> validateUuid env (anonId (eventData st2)));
         (st3, w3) = (if invalid then freshAnonId env (st2, w2) else (st2, w2));
         due1 = (due0 \<or> invalid);
         nextUpdate = hd (queue st3);
         st4 = st3\<lparr>queue := tl (queue st3)\<rparr>;
         due2 = (case lastSuccess (eventData st4) of
                   None \<Rightarrow> due1
                 | Some ls \<Rightarrow>
                     if ls = 0 then due1
                     else
                       let daysElapsed = real_of_int (nextUpdate - ls) / (24 * 60 * 60 * 1000)
                       in due1 \<or> 1 \<le> daysElapsed \<or> daysElapsed < - 1 \<or>
                          getDate env ls \<noteq> getDate env nextUpdate)
     in (st4, w3, nextUpdate, due2))"

text \<open>\<open>processRequests\<close>, lines 263-323, up to the call of \<open>postData\<close>.\<close>

function Turnstile_processRequests :: "Env \<Rightarrow> TurnstileEvent \<times> World \<Rightarrow> TurnstileEvent outcome" where
  "Turnstile_processRequests env (st, w) =
     (if pendingRequest st \<noteq> None \<or> queue st = [] then (None, st, w)
      else
        case Turnstile_admit env (st, w) of (st', w', nextUpdate, dueForEvent) \<Rightarrow>
          if \<not> dueForEvent then Turnstile_processRequests env (st', w')
          else
            case eventsRequest (config w')
                   \<lparr>event = ''appUserTurnstile'',
                    created = nextUpdate,
                    sdkIdentifier = ''mapbox-gl-js'',
                    sdkVersion = version env,
                    enabled_telemetry = Some False,
                    userId = anonId (eventData st')\<rparr> of
              Inl e \<Rightarrow> (Some e, st', w')
            | Inr request \<Rightarrow>
                (None, st'\<lparr>pendingRequest := Some request\<rparr>,
                 postData request (TurnstileDone nextUpdate) w'))"
  by pat_completeness auto
termination
  by (relation "measure (\<lambda>(env, st, w). length (queue st))")
     (auto simp: Turnstile_admit_def Let_def freshAnonId_def
        split: if_splits prod.splits option.splits stored.splits)

text \<open>The callback given to \<open>postData\<close>, lines 314-322; \<open>nextUpdate\<close> is the captured variable.\<close>

definition Turnstile_callback ::
  "Env \<Rightarrow> int \<Rightarrow> error option \<Rightarrow> TurnstileEvent \<times> World \<Rightarrow> TurnstileEvent outcome" where
  "Turnstile_callback env nextUpdate err = (\<lambda>(st, w).
     let st1 = st\<lparr>pendingRequest := None\<rparr>
     in case err of
          Some e \<Rightarrow> (None, st1, w)
        | None \<Rightarrow>
            let st2 = st1\<lparr>eventData := (eventData st1)\<lparr>lastSuccess := Some nextUpdate,
                                                     accessToken := ACCESS_TOKEN (config w)\<rparr>\<rparr>
            in Turnstile_processRequests env (st2, saveEventData (st2, w)))"

text \<open>\<open>postTurnstileEvent\<close>, lines 252-260.\<close>

definition postTurnstileEvent ::
  "Env \<Rightarrow> string list \<Rightarrow> int \<Rightarrow> TurnstileEvent \<times> World \<Rightarrow> TurnstileEvent outcome" where
  "postTurnstileEvent env tileUrls now = (\<lambda>(st, w).
     if truthy (ACCESS_TOKEN (config w)) \<and> list_ex isMapboxHTTPURL tileUrls
     then queueRequest (Turnstile_processRequests env) now (st, w)
     else (None, st, w))"

subsection \<open>The module and its runs\<close>

text \<open>
  The module holds one instance of each class (lines 326-330). An action on it is a call of
  one of the two exported functions, the transport running the callback of the \<open>k\<close>-th
  outstanding request with or without an error, or a change of the surroundings (the
  configuration, the storage). An exception thrown by an exported function or by a callback
  goes to its caller; the state stays as the method left it.
\<close>

record Module =
  mapLoadEvent :: MapLoadEvent
  turnstileEvent :: TurnstileEvent
  world :: World

datatype action =
    PostMapLoad "string list" int int
  | PostTurnstile "string list" int
  | Complete nat "error option"
  | SetConfig Config
  | SetStorage bool bool "string \<rightharpoonup> stored"

definition new_World :: "Config \<Rightarrow> bool \<Rightarrow> bool \<Rightarrow> (string \<rightharpoonup> stored) \<Rightarrow> World" where
  "new_World cfg avail quota items =
     \<lparr>config = cfg, storageAvailable = avail, quotaExceeded = quota, localStorage = items,
      uuids = 0, outstanding = [], effects = []\<rparr>"

definition new_Module :: "Config \<Rightarrow> bool \<Rightarrow> bool \<Rightarrow> (string \<rightharpoonup> stored) \<Rightarrow> Module" where
  "new_Module cfg avail quota items =
     \<lparr>mapLoadEvent = new_MapLoadEvent cfg, turnstileEvent = new_TurnstileEvent cfg,
      world = new_World cfg avail quota items\<rparr>"

definition remove_nth :: "nat \<Rightarrow> 'a list \<Rightarrow> 'a list" where
  "remove_nth k xs = take k xs @ drop (Suc k) xs"

fun step :: "Env \<Rightarrow> action \<Rightarrow> Module \<Rightarrow> Module" where
  "step env (PostMapLoad tileUrls mapId now) m =
     (case postMapLoadEvent env tileUrls mapId now (mapLoadEvent m, world m) of
        (err, st, w) \<Rightarrow> m\<lparr>mapLoadEvent := st, world := w\<rparr>)"
| "step env (PostTurnstile tileUrls now) m =
     (case postTurnstileEvent env tileUrls now (turnstileEvent m, world m) of
        (err, st, w) \<Rightarrow> m\<lparr>turnstileEvent := st, world := w\<rparr>)"
| "step env (Complete k err) m =
     (if k < length (outstanding (world m))
      then
        let w = (world m)\<lparr>outstanding := remove_nth k (outstanding (world m))\<rparr>
        in case snd (outstanding (world m) ! k) of
             MapLoadDone ident \<Rightarrow>
               (case MapLoad_callback env ident err (mapLoadEvent m, w) of
                  (thrown, st, w') \<Rightarrow> m\<lparr>mapLoadEvent := st, world := w'\<rparr>)
           | TurnstileDone nextUpdate \<Rightarrow>
               (case Turnstile_callback env nextUpdate err (turnstileEvent m, w) of
                  (thrown, st, w') \<Rightarrow> m\<lparr>turnstileEvent := st, world := w'\<rparr>)
      else m)"
| "step env (SetConfig cfg) m = m\<lparr>world := (world m)\<lparr>config := cfg\<rparr>\<rparr>"
| "step env (SetStorage avail quota items) m =
     m\<lparr>world := (world m)\<lparr>storageAvailable := avail, quotaExceeded := quota,
                             localStorage := items\<rparr>\<rparr>"

fun run :: "Env \<Rightarrow> action list \<Rightarrow> Module \<Rightarrow> Module" where
  "run env [] m = m"
| "run env (a # as) m = run env as (step env a m)"

text \<open>The requests of one class that are with the transport.\<close>

fun isMapLoadDone :: "callback \<Rightarrow> bool" where
  "isMapLoadDone (MapLoadDone ident) = True"
| "isMapLoadDone (TurnstileDone nextUpdate) = False"

definition mapLoadOutstanding :: "World \<Rightarrow> (RequestParameters \<times> callback) list" where
  "mapLoadOutstanding w = filter (\<lambda>rc. isMapLoadDone (snd rc)) (outstanding w)"

definition turnstileOutstanding :: "World \<Rightarrow> (RequestParameters \<times> callback) list" where
  "turnstileOutstanding w = filter (\<lambda>rc. \<not> isMapLoadDone (snd rc)) (outstanding w)"

section \<open>Auxiliary definitions for the statements\<close>

text \<open>
  A locator written out from its parts: a scheme, an authority, a path \<open>/p\<close> when there is one
  and \<open>?q\<close> when there is a question mark. \<open>locator_parts\<close> is the condition on the parts
  under which the groups of \<open>urlRe\<close> are these parts: the scheme is a non-empty run of word
  characters, the authority has no \<open>/\<close> and no \<open>?\<close>, a path has at least one character after
  its \<open>/\<close> and no \<open>?\<close>, and what follows the question mark has no line terminator.
  \<open>with_default_path\<close> is the same locator with \<open>/\<close> for a missing path and without the
  question mark when nothing follows it.
\<close>

definition locator :: "string \<Rightarrow> string \<Rightarrow> string option \<Rightarrow> string option \<Rightarrow> string" where
  "locator scheme auth pathname query =
     scheme @ ''://'' @ auth @ (case pathname of None \<Rightarrow> [] | Some p \<Rightarrow> ''/'' @ p) @
     (case query of None \<Rightarrow> [] | Some q \<Rightarrow> ''?'' @ q)"

definition locator_parts :: "string \<Rightarrow> string \<Rightarrow> string option \<Rightarrow> string option \<Rightarrow> bool" where
  "locator_parts scheme auth pathname query =
     (scheme \<noteq> [] \<and> list_all word_char scheme \<and> list_all authority_char auth \<and>
      (case pathname of None \<Rightarrow> True | Some p \<Rightarrow> p \<noteq> [] \<and> list_all not_question p) \<and>
      (case query of None \<Rightarrow> True | Some q \<Rightarrow> list_all (\<lambda>c. \<not> line_terminator c) q))"

definition with_default_path :: "string \<Rightarrow> string \<Rightarrow> string option \<Rightarrow> string option \<Rightarrow> string" where
  "with_default_path scheme auth pathname query =
     scheme @ ''://'' @ auth @ (case pathname of None \<Rightarrow> ''/'' | Some p \<Rightarrow> ''/'' @ p) @
     (case query of None \<Rightarrow> [] | Some q \<Rightarrow> if q = [] then [] else ''?'' @ q)"

text \<open>\<open>accessToken || config.ACCESS_TOKEN\<close>, the token that \<open>makeAPIURL\<close> checks.\<close>

definition effective_token :: "Config \<Rightarrow> string option \<Rightarrow> string option" where
  "effective_token cfg supplied = (if truthy supplied then supplied else ACCESS_TOKEN cfg)"

text \<open>What \<open>makeAPIURL\<close> makes of the locator before it looks at the token.\<close>

definition rebase :: "UrlObject \<Rightarrow> UrlObject \<Rightarrow> UrlObject" where
  "rebase apiUrlObject urlObject =
     urlObject\<lparr>protocol := protocol apiUrlObject, authority := authority apiUrlObject,
               path := (if path apiUrlObject \<noteq> ''/'' then path apiUrlObject @ path urlObject
                        else path urlObject)\<rparr>"

text \<open>What one round of the loop of \<open>replaceTempAccessToken\<close> leaves at its index.\<close>

definition replaced :: "Config \<Rightarrow> string \<Rightarrow> string" where
  "replaced cfg p =
     (if starts_with ''access_token=tk.'' p then ''access_token='' @ or_empty (ACCESS_TOKEN cfg)
      else p)"

text \<open>
  Concrete surroundings for the examples. In \<open>example_env\<close> an identifier is valid when it
  has 36 characters, \<open>uuid()\<close> always returns the same one, and the day of the month is
  counted in days of 86400000 milliseconds from the epoch, in months of 31 days.
\<close>

definition example_config :: Config where
  "example_config =
     \<lparr>API_URL = ''https://api.mapbox.com'', EVENTS_URL = ''https://events.mapbox.com/events/v2'',
      REQUIRE_ACCESS_TOKEN = True, ACCESS_TOKEN = Some ''pk.key''\<rparr>"

definition example_env :: Env where
  "example_env =
     \<lparr>validUuid = (\<lambda>s. length s = 36), uuid = (\<lambda>n. replicate 36 (CHR ''a'')),
      getDate = (\<lambda>t. t div 86400000 mod 31 + 1), version = ''0.48.0''\<rparr>"

definition example_world :: World where
  "example_world = new_World example_config False False Map.empty"

definition example_uuid :: string where
  "example_uuid = replicate 36 (CHR ''a'')"

text \<open>A map-load instance on which map 7 has succeeded, with two entries waiting.\<close>

definition example_MapLoadEvent :: MapLoadEvent where
  "example_MapLoadEvent =
     \<lparr>eventData = \<lparr>anonId = Some example_uuid, lastSuccess = None, accessToken = Some ''pk.key''\<rparr>,
      queue = [\<lparr>id_of = 7, timestamp = 2000\<rparr>, \<lparr>id_of = 8, timestamp = 3000\<rparr>],
      pendingRequest = None,
      success = [7 \<mapsto> True]\<rparr>"

text \<open>A turnstile instance whose last success was at time 1000, with two entries waiting:
  one of the same day, one of the next.\<close>

definition example_TurnstileEvent :: TurnstileEvent where
  "example_TurnstileEvent =
     \<lparr>eventData = \<lparr>anonId = Some example_uuid, lastSuccess = Some 1000,
                    accessToken = Some ''pk.key''\<rparr>,
      queue = [2000, 86401000],
      pendingRequest = None\<rparr>"

definition example_request :: "Payload \<Rightarrow> RequestParameters" where
  "example_request payload =
     \<lparr>url = ''https://events.mapbox.com/events/v2?access_token=pk.key'',
      headers = [(''Content-Type'', ''text/plain'')], body = payload\<rparr>"

definition example_pending :: RequestParameters where
  "example_pending =
     example_request
       \<lparr>event = ''map.load'', created = 1000, sdkIdentifier = ''mapbox-gl-js'',
        sdkVersion = ''0.48.0'', enabled_telemetry = None, userId = Some example_uuid\<rparr>"

definition example_tile :: string where
  "example_tile = ''https://a.tiles.mapbox.com/v4/a/0/0/0.png''"

definition example_Module :: Module where
  "example_Module = new_Module example_config False False Map.empty"

text \<open>The turnstile instance after its first request, for time stamp 1000, has failed.\<close>

definition example_failed_TurnstileEvent :: TurnstileEvent where
  "example_failed_TurnstileEvent =
     \<lparr>eventData = \<lparr>anonId = Some example_uuid, lastSuccess = None, accessToken = Some ''pk.key''\<rparr>,
      queue = [], pendingRequest = None\<rparr>"

definition example_turnstile_request :: RequestParameters where
  "example_turnstile_request =
     example_request
       \<lparr>event = ''appUserTurnstile'', created = 1000, sdkIdentifier = ''mapbox-gl-js'',
        sdkVersion = ''0.48.0'', enabled_telemetry = Some False, userId = Some example_uuid\<rparr>"

definition example_failed_World :: World where
  "example_failed_World =
     example_world\<lparr>uuids := 1, effects := [Posted example_turnstile_request]\<rparr>"

definition example_next_day_request :: RequestParameters where
  "example_next_day_request =
     example_request
       \<lparr>event = ''appUserTurnstile'', created = 86401000, sdkIdentifier = ''mapbox-gl-js'',
        sdkVersion = ''0.48.0'', enabled_telemetry = Some False, userId = Some example_uuid\<rparr>"

text \<open>
  The in-flight slot of an instance agrees with the transport: the instance has a request
  with the transport exactly when its slot is taken, and never more than one.
\<close>

definition mapLoad_in_flight_ok :: "MapLoadEvent \<Rightarrow> World \<Rightarrow> bool" where
  "mapLoad_in_flight_ok st w =
     (length (mapLoadOutstanding w) = (if pendingRequest st = None then 0 else 1))"

definition turnstile_in_flight_ok :: "TurnstileEvent \<Rightarrow> World \<Rightarrow> bool" where
  "turnstile_in_flight_ok st w =
     (length (turnstileOutstanding w) = (if pendingRequest st = None then 0 else 1))"

definition in_flight_ok :: "Module \<Rightarrow> bool" where
  "in_flight_ok m =
     (mapLoad_in_flight_ok (mapLoadEvent m) (world m) \<and>
      turnstile_in_flight_ok (turnstileEvent m) (world m))"


section \<open>Properties of URL normalisation\<close>

subsection \<open>Splitting, joining and scanning\<close>

lemma split_from_not_Nil: "split_from sep cur s \<noteq> []"
  by (induction s arbitrary: cur) auto

lemma join_Cons: "xs \<noteq> [] \<Longrightarrow> join sep (x # xs) = x @ sep @ join sep xs"
  by (cases xs) auto

lemma join_split_from: "join [sep] (split_from sep cur s) = cur @ s"
  by (induction s arbitrary: cur) (auto simp: join_Cons split_from_not_Nil)

lemma split_on_not_Nil: "split_on sep s \<noteq> []"
  by (simp add: split_on_def split_from_not_Nil)

lemma join_split_on: "join [sep] (split_on sep s) = s"
  by (simp add: split_on_def join_split_from)

lemma takeWhile_stop:
  "list_all P xs \<Longrightarrow> \<not> P y \<Longrightarrow> takeWhile P (xs @ y # ys) = xs"
  by (induction xs) auto

lemma dropWhile_stop:
  "list_all P xs \<Longrightarrow> \<not> P y \<Longrightarrow> dropWhile P (xs @ y # ys) = y # ys"
  by (induction xs) auto

lemma takeWhile_all: "list_all P xs \<Longrightarrow> takeWhile P xs = xs"
  by (induction xs) auto

text \<open>What \<open>parseUrl\<close> does once the scheme and the authority are read.\<close>

lemma parseUrl_scheme:
  assumes "scheme \<noteq> []" "list_all word_char scheme" "list_all authority_char auth"
    and "r = [] \<or> \<not> authority_char (hd r)"
  shows "parseUrl (scheme @ ''://'' @ auth @ r) =
           (let g3 = path_group r;
                r4 = (case g3 of None \<Rightarrow> r | Some p \<Rightarrow> drop (length p) r);
                g4 = takeWhile (\<lambda>c. \<not> line_terminator c) (skip_question r4)
            in Inr \<lparr>protocol = scheme, authority = auth,
                     path = (case g3 of None \<Rightarrow> ''/'' | Some p \<Rightarrow> p),
                     params = (if g4 = [] then [] else split_on (CHR ''&'') g4)\<rparr>)"
proof -
  have nw: "\<not> word_char (CHR '':'')" by (simp add: word_char_def)
  have g1: "takeWhile word_char (scheme @ CHR '':'' # ''//'' @ auth @ r) = scheme"
    by (rule takeWhile_stop [OF assms(2) nw])
  have r1: "dropWhile word_char (scheme @ CHR '':'' # ''//'' @ auth @ r) = CHR '':'' # ''//'' @ auth @ r"
    by (rule dropWhile_stop [OF assms(2) nw])
  have g2: "takeWhile authority_char (auth @ r) = auth"
  proof (cases r)
    case Nil
    then show ?thesis using assms(3) by (simp add: takeWhile_all)
  next
    case (Cons y ys)
    with assms(4) have "\<not> authority_char y" by simp
    with Cons show ?thesis using takeWhile_stop [OF assms(3)] by simp
  qed
  have r3: "dropWhile authority_char (auth @ r) = r"
  proof (cases r)
    case Nil
    then show ?thesis using assms(3) by (simp add: list_all_iff)
  next
    case (Cons y ys)
    with assms(4) have "\<not> authority_char y" by simp
    with Cons show ?thesis using dropWhile_stop [OF assms(3)] by simp
  qed
  have e: "scheme @ ''://'' @ auth @ r = scheme @ CHR '':'' # ''//'' @ auth @ r" by simp
  show ?thesis
    unfolding parseUrl_def e g1 r1 Let_def
    using assms(1) g2 r3 by (simp add: starts_with_def cong: option.case_cong)
qed

lemma parseUrl_locator:
  assumes "locator_parts scheme auth pathname query"
  shows "parseUrl (locator scheme auth pathname query) =
           Inr \<lparr>protocol = scheme, authority = auth,
                path = (case pathname of None \<Rightarrow> ''/'' | Some p \<Rightarrow> ''/'' @ p),
                params = (case query of None \<Rightarrow> []
                          | Some q \<Rightarrow> if q = [] then [] else split_on (CHR ''&'') q)\<rparr>"
proof -
  define rest where "rest = (case query of None \<Rightarrow> [] | Some q \<Rightarrow> ''?'' @ q)"
  define qs where "qs = (case query of None \<Rightarrow> [] | Some q \<Rightarrow> q)"
  from assms have s: "scheme \<noteq> []" "list_all word_char scheme"
    and a: "list_all authority_char auth"
    by (simp_all add: locator_parts_def)
  from assms have q: "list_all (\<lambda>c. \<not> line_terminator c) qs"
    by (cases query) (simp_all add: locator_parts_def qs_def)
  have nq: "\<not> not_question (CHR ''?'')" by (simp add: not_question_def)
  have sk: "skip_question rest = qs"
    by (cases query) (simp_all add: rest_def qs_def skip_question_def)
  have g4: "takeWhile (\<lambda>c. \<not> line_terminator c) (skip_question rest) = qs"
    unfolding sk by (rule takeWhile_all [OF q])
  have ps: "(if qs = [] then [] else split_on (CHR ''&'') qs) =
              (case query of None \<Rightarrow> [] | Some q \<Rightarrow> if q = [] then [] else split_on (CHR ''&'') q)"
    by (cases query) (simp_all add: qs_def)
  show ?thesis
  proof (cases pathname)
    case None
    have g3: "path_group rest = None"
      by (cases query) (simp_all add: rest_def path_group_def split: list.splits)
    have hd: "rest = [] \<or> \<not> authority_char (hd rest)"
      by (cases query) (simp_all add: rest_def authority_char_def)
    have "parseUrl (scheme @ ''://'' @ auth @ rest) =
            Inr \<lparr>protocol = scheme, authority = auth, path = ''/'',
                 params = (if qs = [] then [] else split_on (CHR ''&'') qs)\<rparr>"
      using parseUrl_scheme [OF s a hd] g3 g4 by simp
    with None show ?thesis by (simp add: locator_def rest_def [symmetric] ps)
  next
    case (Some p)
    with assms have p: "p \<noteq> []" "list_all not_question p"
      by (simp_all add: locator_parts_def)
    obtain d ds where pd: "p = d # ds" using p(1) by (cases p) auto
    with p(2) have d: "d \<noteq> CHR ''?''" by (simp add: not_question_def)
    have tw: "takeWhile not_question (p @ rest) = p"
    proof (cases query)
      case None
      then show ?thesis using p(2) by (simp add: rest_def takeWhile_all)
    next
      case (Some q')
      then show ?thesis using takeWhile_stop [OF p(2) nq] by (simp add: rest_def)
    qed
    have g3: "path_group (''/'' @ p @ rest) = Some (''/'' @ p)"
      using d tw by (simp add: path_group_def pd)
    have hd: "''/'' @ p @ rest = [] \<or> \<not> authority_char (hd (''/'' @ p @ rest))"
      by (simp add: authority_char_def)
    have "parseUrl (scheme @ ''://'' @ auth @ (''/'' @ p @ rest)) =
            Inr \<lparr>protocol = scheme, authority = auth, path = ''/'' @ p,
                 params = (if qs = [] then [] else split_on (CHR ''&'') qs)\<rparr>"
      using parseUrl_scheme [OF s a hd] g3 g4 by simp
    with Some show ?thesis by (simp add: locator_def rest_def [symmetric] ps)
  qed
qed

lemma parse_api:
  "parseUrl ''https://api.mapbox.com'' =
     Inr \<lparr>protocol = ''https'', authority = ''api.mapbox.com'', path = ''/'', params = []\<rparr>"
  by (simp add: parseUrl_def starts_with_def word_char_def authority_char_def path_group_def
        skip_question_def)

subsection \<open>Parsing and formatting\<close>

text \<open>
  Claim C6 says that \<open>format(parse(L)) = L\<close> for every locator that \<open>parseUrl\<close> accepts. The
  locator \<open>a://b\<close> is accepted, its path defaults to \<open>/\<close>, and it comes back as \<open>a://b/\<close>.
  The locator \<open>a://b/c?\<close> is accepted with no parameters, and \<open>formatUrl\<close> writes no
  question mark when there are none: it comes back as \<open>a://b/c\<close>.
\<close>

theorem parse_format_counterexample:
  "parseUrl ''a://b'' = Inr \<lparr>protocol = ''a'', authority = ''b'', path = ''/'', params = []\<rparr> \<and>
   formatUrl \<lparr>protocol = ''a'', authority = ''b'', path = ''/'', params = []\<rparr> = ''a://b/'' \<and>
   ''a://b/'' \<noteq> ''a://b'' \<and>
   parseUrl ''a://b/c?'' = Inr \<lparr>protocol = ''a'', authority = ''b'', path = ''/c'', params = []\<rparr> \<and>
   formatUrl \<lparr>protocol = ''a'', authority = ''b'', path = ''/c'', params = []\<rparr> = ''a://b/c'' \<and>
   ''a://b/c'' \<noteq> ''a://b/c?''"
  by (simp add: parseUrl_def starts_with_def word_char_def authority_char_def path_group_def
      skip_question_def formatUrl_def not_question_def)

text \<open>
  Claim C6, amended: a locator made of a scheme, an authority, optionally a path with at
  least one character after its \<open>/\<close>, and optionally a question mark followed by a query on
  one line, is accepted by \<open>parseUrl\<close>, and \<open>formatUrl\<close> of the result is the locator with
  \<open>/\<close> put in for a missing path and without the question mark when nothing follows it. When
  the locator has a path and no question mark with nothing after it, this is the locator
  itself.
\<close>

theorem parse_format_roundtrip:
  assumes "locator_parts scheme auth pathname query"
  shows "\<exists>u. parseUrl (locator scheme auth pathname query) = Inr u \<and>
             formatUrl u = with_default_path scheme auth pathname query \<and>
             (pathname \<noteq> None \<and> query \<noteq> Some [] \<longrightarrow>
                formatUrl u = locator scheme auth pathname query)"
proof -
  let ?u = "\<lparr>protocol = scheme, authority = auth,
             path = (case pathname of None \<Rightarrow> ''/'' | Some p \<Rightarrow> ''/'' @ p),
             params = (case query of None \<Rightarrow> []
                       | Some q \<Rightarrow> if q = [] then [] else split_on (CHR ''&'') q)\<rparr>"
  have f: "formatUrl ?u = with_default_path scheme auth pathname query"
    using join_split_on [of "CHR ''&''"]
    by (cases query) (simp_all add: formatUrl_def with_default_path_def split_on_not_Nil)
  have e: "pathname \<noteq> None \<and> query \<noteq> Some [] \<longrightarrow>
             with_default_path scheme auth pathname query = locator scheme auth pathname query"
    by (cases pathname; cases query) (simp_all add: with_default_path_def locator_def)
  from parseUrl_locator [OF assms] f e show ?thesis by simp
qed

theorem parse_format_roundtrip_witness:
  "locator_parts ''https'' ''api.mapbox.com'' (Some ''styles/v1'') (Some ''a=1&b=2'') \<and>
   locator ''https'' ''api.mapbox.com'' (Some ''styles/v1'') (Some ''a=1&b=2'') =
     ''https://api.mapbox.com/styles/v1?a=1&b=2'' \<and>
   (\<exists>u. parseUrl ''https://api.mapbox.com/styles/v1?a=1&b=2'' = Inr u \<and>
        formatUrl u = ''https://api.mapbox.com/styles/v1?a=1&b=2'') \<and>
   locator_parts ''https'' ''api.mapbox.com'' None (Some ''a=1&b=2'') \<and>
   locator ''https'' ''api.mapbox.com'' None (Some ''a=1&b=2'') =
     ''https://api.mapbox.com?a=1&b=2'' \<and>
   (\<exists>u. parseUrl ''https://api.mapbox.com?a=1&b=2'' = Inr u \<and>
        formatUrl u = ''https://api.mapbox.com/?a=1&b=2'')"
proof -
  have h1: "locator_parts ''https'' ''api.mapbox.com'' (Some ''styles/v1'') (Some ''a=1&b=2'')"
    by (simp add: locator_parts_def word_char_def authority_char_def not_question_def
          line_terminator_def)
  have l1: "locator ''https'' ''api.mapbox.com'' (Some ''styles/v1'') (Some ''a=1&b=2'') =
             ''https://api.mapbox.com/styles/v1?a=1&b=2''"
    by (simp add: locator_def)
  have h2: "locator_parts ''https'' ''api.mapbox.com'' None (Some ''a=1&b=2'')"
    by (simp add: locator_parts_def word_char_def authority_char_def line_terminator_def)
  have l2: "locator ''https'' ''api.mapbox.com'' None (Some ''a=1&b=2'') =
             ''https://api.mapbox.com?a=1&b=2''"
    by (simp add: locator_def)
  have w2: "with_default_path ''https'' ''api.mapbox.com'' None (Some ''a=1&b=2'') =
             ''https://api.mapbox.com/?a=1&b=2''"
    by (simp add: with_default_path_def)
  have r1: "\<exists>u. parseUrl ''https://api.mapbox.com/styles/v1?a=1&b=2'' = Inr u \<and>
        formatUrl u = ''https://api.mapbox.com/styles/v1?a=1&b=2''"
    using parse_format_roundtrip [OF h1] unfolding l1 by auto
  have r2: "\<exists>u. parseUrl ''https://api.mapbox.com?a=1&b=2'' = Inr u \<and>
        formatUrl u = ''https://api.mapbox.com/?a=1&b=2''"
    using parse_format_roundtrip [OF h2] unfolding l2 w2 by auto
  show ?thesis using h1 l1 r1 h2 l2 r2 by (intro conjI)
qed

text \<open>
  The locators above leave out a path that is the bare \<open>/\<close>. Group 3 of \<open>urlRe\<close> needs a
  character after the \<open>/\<close>, so the \<open>/\<close> of \<open>a://b/\<close> is read by group 4, as the query: the
  path is the default and the \<open>/\<close> is the one parameter.
\<close>

lemma parseUrl_bare_slash:
  "parseUrl ''a://b/'' =
     Inr \<lparr>protocol = ''a'', authority = ''b'', path = ''/'', params = [''/'']\<rparr> \<and>
   formatUrl \<lparr>protocol = ''a'', authority = ''b'', path = ''/'', params = [''/'']\<rparr> = ''a://b/?/''"
  by (simp add: parseUrl_def starts_with_def word_char_def authority_char_def path_group_def
      skip_question_def formatUrl_def line_terminator_def split_on_def Let_def)

subsection \<open>Token errors of \<open>makeAPIURL\<close>\<close>

text \<open>
  Claim C7 says that a secret token makes \<open>makeAPIURL\<close> fail whatever the configuration,
  and that it fails when there is no token. With \<open>REQUIRE_ACCESS_TOKEN\<close> off the function
  returns before it looks at any token: a secret token, and no token at all, both give a
  locator.
\<close>

theorem makeAPIURL_secret_counterexample:
  "makeAPIURL (example_config\<lparr>REQUIRE_ACCESS_TOKEN := False\<rparr>)
     \<lparr>protocol = ''mapbox'', authority = ''styles'', path = ''/styles/v1/u/s'', params = []\<rparr>
     (Some ''sk.secret'') = Inr ''https://api.mapbox.com/styles/v1/u/s'' \<and>
   makeAPIURL (example_config\<lparr>REQUIRE_ACCESS_TOKEN := False, ACCESS_TOKEN := None\<rparr>)
     \<lparr>protocol = ''mapbox'', authority = ''styles'', path = ''/styles/v1/u/s'', params = []\<rparr>
     None = Inr ''https://api.mapbox.com/styles/v1/u/s''"
  by (simp add: makeAPIURL_def example_config_def parse_api formatUrl_def)

text \<open>
  Claim C7, amended: when the configured API origin parses and \<open>REQUIRE_ACCESS_TOKEN\<close> is
  on, \<open>makeAPIURL\<close> fails with \<open>MissingToken\<close> if the token in force (the supplied one, or
  else the configured one) is absent or empty, and with \<open>SecretTokenUsed\<close> if it starts with
  \<open>s\<close>; when \<open>REQUIRE_ACCESS_TOKEN\<close> is off it checks no token and returns the rebased
  locator.
\<close>

theorem makeAPIURL_token_errors:
  assumes "parseUrl (API_URL cfg) = Inr apiUrlObject"
  shows "(REQUIRE_ACCESS_TOKEN cfg \<and> \<not> truthy (effective_token cfg supplied) \<longrightarrow>
            makeAPIURL cfg urlObject supplied = Inl MissingToken) \<and>
         (REQUIRE_ACCESS_TOKEN cfg \<and> effective_token cfg supplied = Some (CHR ''s'' # rest) \<longrightarrow>
            makeAPIURL cfg urlObject supplied = Inl SecretTokenUsed) \<and>
         (\<not> REQUIRE_ACCESS_TOKEN cfg \<longrightarrow>
            makeAPIURL cfg urlObject supplied = Inr (formatUrl (rebase apiUrlObject urlObject)))"
proof (intro conjI impI)
  assume "REQUIRE_ACCESS_TOKEN cfg \<and> \<not> truthy (effective_token cfg supplied)"
  then show "makeAPIURL cfg urlObject supplied = Inl MissingToken"
    using assms
    by (cases "effective_token cfg supplied")
       (auto simp: makeAPIURL_def effective_token_def Let_def split: list.splits if_splits)
next
  assume "REQUIRE_ACCESS_TOKEN cfg \<and> effective_token cfg supplied = Some (CHR ''s'' # rest)"
  then show "makeAPIURL cfg urlObject supplied = Inl SecretTokenUsed"
    using assms by (auto simp: makeAPIURL_def effective_token_def Let_def split: if_splits)
next
  assume "\<not> REQUIRE_ACCESS_TOKEN cfg"
  then show "makeAPIURL cfg urlObject supplied = Inr (formatUrl (rebase apiUrlObject urlObject))"
    using assms by (simp add: makeAPIURL_def rebase_def Let_def)
qed

theorem makeAPIURL_token_errors_witness:
  "parseUrl (API_URL example_config) =
     Inr \<lparr>protocol = ''https'', authority = ''api.mapbox.com'', path = ''/'', params = []\<rparr> \<and>
   REQUIRE_ACCESS_TOKEN example_config \<and>
   effective_token example_config (Some ''sk.secret'') = Some (CHR ''s'' # ''k.secret'') \<and>
   makeAPIURL example_config
     \<lparr>protocol = ''mapbox'', authority = ''styles'', path = ''/styles/v1/u/s'', params = []\<rparr>
     (Some ''sk.secret'') = Inl SecretTokenUsed \<and>
   \<not> truthy (effective_token (example_config\<lparr>ACCESS_TOKEN := None\<rparr>) None) \<and>
   makeAPIURL (example_config\<lparr>ACCESS_TOKEN := None\<rparr>)
     \<lparr>protocol = ''mapbox'', authority = ''styles'', path = ''/styles/v1/u/s'', params = []\<rparr>
     None = Inl MissingToken \<and>
   makeAPIURL (example_config\<lparr>REQUIRE_ACCESS_TOKEN := False\<rparr>)
     \<lparr>protocol = ''mapbox'', authority = ''styles'', path = ''/styles/v1/u/s'', params = []\<rparr>
     None = Inr ''https://api.mapbox.com/styles/v1/u/s''"
proof -
  let ?u = "\<lparr>protocol = ''mapbox'', authority = ''styles'', path = ''/styles/v1/u/s'', params = []\<rparr>"
  let ?a = "\<lparr>protocol = ''https'', authority = ''api.mapbox.com'', path = ''/'', params = []\<rparr>"
  have p: "parseUrl (API_URL example_config) = Inr ?a"
    by (simp add: example_config_def parse_api)
  have p2: "parseUrl (API_URL (example_config\<lparr>ACCESS_TOKEN := None\<rparr>)) = Inr ?a"
    by (simp add: example_config_def parse_api)
  have p3: "parseUrl (API_URL (example_config\<lparr>REQUIRE_ACCESS_TOKEN := False\<rparr>)) = Inr ?a"
    by (simp add: example_config_def parse_api)
  have f: "formatUrl (rebase ?a ?u) = ''https://api.mapbox.com/styles/v1/u/s''"
    by (simp add: formatUrl_def rebase_def)
  show ?thesis
    using p f
      makeAPIURL_token_errors [OF p, where supplied = "Some ''sk.secret''"
        and rest = "''k.secret''" and urlObject = ?u]
      makeAPIURL_token_errors [OF p2, where supplied = None and urlObject = ?u]
      makeAPIURL_token_errors [OF p3, where supplied = None and urlObject = ?u]
    by (simp add: example_config_def effective_token_def)
qed

subsection \<open>Temporary tokens in tile locators\<close>

declare replaceTempAccessToken_from.simps [simp del]

lemma replaceTempAccessToken_from_map:
  "replaceTempAccessToken_from cfg i ps = take i ps @ map (replaced cfg) (drop i ps)"
proof (induction cfg i ps rule: replaceTempAccessToken_from.induct)
  case (1 cfg i ps)
  show ?case
  proof (cases "i < length ps")
    case False
    then show ?thesis by (simp add: replaceTempAccessToken_from.simps [of cfg i ps])
  next
    case True
    let ?ps' = "(if starts_with ''access_token=tk.'' (ps ! i)
                 then ps[i := ''access_token='' @ or_empty (ACCESS_TOKEN cfg)] else ps)"
    have t: "take (Suc i) ?ps' = take i ps @ [replaced cfg (ps ! i)]"
      using True by (simp add: take_Suc_conv_app_nth replaced_def)
    have d: "drop (Suc i) ?ps' = drop (Suc i) ps" by simp
    have "replaceTempAccessToken_from cfg i ps = replaceTempAccessToken_from cfg (Suc i) ?ps'"
      using True by (simp add: replaceTempAccessToken_from.simps [of cfg i ps])
    also have "\<dots> = take (Suc i) ?ps' @ map (replaced cfg) (drop (Suc i) ?ps')"
      using True "1.IH" by simp
    also have "\<dots> = take i ps @ map (replaced cfg) (drop i ps)"
      unfolding t d using True by (simp add: Cons_nth_drop_Suc [symmetric])
    finally show ?thesis .
  qed
qed


lemma replaceTempAccessToken_map: "replaceTempAccessToken cfg ps = map (replaced cfg) ps"
  by (simp add: replaceTempAccessToken_def replaceTempAccessToken_from_map)




text \<open>
  Claim C10: in the rewriting of a tile locator, \<open>replaceTempAccessToken\<close> keeps the number
  of query parameters; a parameter that begins with \<open>access_token=tk.\<close> becomes
  \<open>access_token=\<close> followed by the configured token, and the bare \<open>access_token=\<close> when no
  token is configured; every other parameter stays as it is. \<open>normalizeTileURL\<close> with a
  first-party source formats the parsed tile locator with exactly these parameters.
\<close>

theorem replaceTempAccessToken_replaces:
  "length (replaceTempAccessToken cfg ps) = length ps \<and>
   (\<forall>i < length ps.
      (starts_with ''access_token=tk.'' (ps ! i) \<longrightarrow>
         replaceTempAccessToken cfg ps ! i = ''access_token='' @ or_empty (ACCESS_TOKEN cfg) \<and>
         (\<not> truthy (ACCESS_TOKEN cfg) \<longrightarrow> replaceTempAccessToken cfg ps ! i = ''access_token='')) \<and>
      (\<not> starts_with ''access_token=tk.'' (ps ! i) \<longrightarrow>
         replaceTempAccessToken cfg ps ! i = ps ! i)) \<and>
   (truthy src \<and> isMapboxURL (or_empty src) \<and> parseUrl tile = Inr u \<longrightarrow>
      normalizeTileURL cfg browser tile src tileSize =
        Inr (formatUrl
               \<lparr>protocol = protocol u, authority = authority u,
                path = replace_image_extension
                         (\<lambda>g1. (if 2 \<le> devicePixelRatio browser \<or> tileSize = Some 512
                                 then ''@2x'' else []) @
                                (if supportsWebp browser then ''.webp'' else g1))
                         (path u),
                params = replaceTempAccessToken cfg (params u)\<rparr>))"
proof (intro conjI allI impI)
  show "length (replaceTempAccessToken cfg ps) = length ps"
    by (simp add: replaceTempAccessToken_map)
next
  fix i assume "i < length ps" "starts_with ''access_token=tk.'' (ps ! i)"
  then show "replaceTempAccessToken cfg ps ! i = ''access_token='' @ or_empty (ACCESS_TOKEN cfg)"
    by (simp add: replaceTempAccessToken_map replaced_def)
next
  fix i assume "i < length ps" "starts_with ''access_token=tk.'' (ps ! i)"
    "\<not> truthy (ACCESS_TOKEN cfg)"
  then show "replaceTempAccessToken cfg ps ! i = ''access_token=''"
    by (cases "ACCESS_TOKEN cfg") (simp_all add: replaceTempAccessToken_map replaced_def)
next
  fix i assume "i < length ps" "\<not> starts_with ''access_token=tk.'' (ps ! i)"
  then show "replaceTempAccessToken cfg ps ! i = ps ! i"
    by (simp add: replaceTempAccessToken_map replaced_def)
next
  assume "truthy src \<and> isMapboxURL (or_empty src) \<and> parseUrl tile = Inr u"
  then show "normalizeTileURL cfg browser tile src tileSize =
        Inr (formatUrl
               \<lparr>protocol = protocol u, authority = authority u,
                path = replace_image_extension
                         (\<lambda>g1. (if 2 \<le> devicePixelRatio browser \<or> tileSize = Some 512
                                 then ''@2x'' else []) @
                                (if supportsWebp browser then ''.webp'' else g1))
                         (path u),
                params = replaceTempAccessToken cfg (params u)\<rparr>)"
    unfolding normalizeTileURL_def Let_def formatUrl_def by simp
qed


lemma parse_tile:
  "parseUrl ''http://a.tiles.mapbox.com/v4/a.b/0/0/0.png?access_token=tk.abc&x=1'' =
     Inr \<lparr>protocol = ''http'', authority = ''a.tiles.mapbox.com'', path = ''/v4/a.b/0/0/0.png'',
          params = [''access_token=tk.abc'', ''x=1'']\<rparr>"
  by (simp add: parseUrl_def starts_with_def word_char_def authority_char_def path_group_def
        skip_question_def not_question_def line_terminator_def split_on_def)

lemma tile_path:
  "replace_image_extension (\<lambda>g1. [] @ g1) ''/v4/a.b/0/0/0.png'' = ''/v4/a.b/0/0/0.png''"
  by (simp add: image_extension_def starts_with_def)

theorem replaceTempAccessToken_replaces_witness:
  "length (replaceTempAccessToken example_config [''access_token=tk.abc'', ''x=1'']) = 2 \<and>
   starts_with ''access_token=tk.'' ([''access_token=tk.abc'', ''x=1''] ! 0) \<and>
   replaceTempAccessToken example_config [''access_token=tk.abc'', ''x=1''] ! 0 = ''access_token=pk.key'' \<and>
   \<not> truthy (ACCESS_TOKEN (example_config\<lparr>ACCESS_TOKEN := None\<rparr>)) \<and>
   replaceTempAccessToken (example_config\<lparr>ACCESS_TOKEN := None\<rparr>) [''access_token=tk.abc'', ''x=1''] ! 0 = ''access_token='' \<and>
   \<not> starts_with ''access_token=tk.'' ([''access_token=tk.abc'', ''x=1''] ! 1) \<and>
   replaceTempAccessToken example_config [''access_token=tk.abc'', ''x=1''] ! 1 = ''x=1'' \<and>
   truthy (Some ''mapbox://a.b'') \<and> isMapboxURL (or_empty (Some ''mapbox://a.b'')) \<and>
   normalizeTileURL example_config \<lparr>devicePixelRatio = 1, supportsWebp = False\<rparr>
     ''http://a.tiles.mapbox.com/v4/a.b/0/0/0.png?access_token=tk.abc&x=1''
     (Some ''mapbox://a.b'') None =
   Inr ''http://a.tiles.mapbox.com/v4/a.b/0/0/0.png?access_token=pk.key&x=1''"
proof -
  let ?ps = "[''access_token=tk.abc'', ''x=1'']"
  let ?none = "example_config\<lparr>ACCESS_TOKEN := None\<rparr>"
  let ?b = "\<lparr>devicePixelRatio = 1, supportsWebp = False\<rparr>"
  have s0: "starts_with ''access_token=tk.'' (?ps ! 0)" by (simp add: starts_with_def)
  have s1: "\<not> starts_with ''access_token=tk.'' (?ps ! 1)" by (simp add: starts_with_def)
  have m: "truthy (Some ''mapbox://a.b'') \<and> isMapboxURL (or_empty (Some ''mapbox://a.b''))"
    by (simp add: isMapboxURL_def starts_with_def)
  have n: "\<not> truthy (ACCESS_TOKEN ?none)" by simp
  note a = replaceTempAccessToken_replaces [where cfg = example_config and ps = ?ps
      and src = "Some ''mapbox://a.b''" and browser = ?b and tileSize = None
      and tile = "''http://a.tiles.mapbox.com/v4/a.b/0/0/0.png?access_token=tk.abc&x=1''"]
  note b = replaceTempAccessToken_replaces [where cfg = ?none and ps = ?ps]
  have l: "length (replaceTempAccessToken example_config ?ps) = 2" using a by simp
  have a0: "replaceTempAccessToken example_config ?ps ! 0 = ''access_token=pk.key''"
    using a s0 by (simp add: example_config_def)
  have a1: "replaceTempAccessToken example_config ?ps ! 1 = ''x=1''"
    using a s1 by simp
  have b0: "replaceTempAccessToken ?none ?ps ! 0 = ''access_token=''"
    using b s0 n by simp
  have ps: "replaceTempAccessToken example_config ?ps = [''access_token=pk.key'', ''x=1'']"
    using l a0 a1 by (simp add: list_eq_iff_nth_eq less_Suc_eq numeral_2_eq_2)
  have t: "normalizeTileURL example_config ?b
     ''http://a.tiles.mapbox.com/v4/a.b/0/0/0.png?access_token=tk.abc&x=1''
     (Some ''mapbox://a.b'') None =
     Inr ''http://a.tiles.mapbox.com/v4/a.b/0/0/0.png?access_token=pk.key&x=1''"
    using a m parse_tile tile_path ps by (simp add: formatUrl_def)
  show ?thesis using l s0 a0 n b0 s1 a1 m t by simp
qed

subsection \<open>The resource-specific wrappers\<close>

lemma parse_foo:
  "parseUrl ''http://www.foo.com/bar'' =
     Inr \<lparr>protocol = ''http'', authority = ''www.foo.com'', path = ''/bar'', params = []\<rparr>"
  by (simp add: parseUrl_def starts_with_def word_char_def authority_char_def path_group_def
        skip_question_def not_question_def line_terminator_def split_on_def)

lemma parse_style:
  "parseUrl ''mapbox://styles/user/style'' =
     Inr \<lparr>protocol = ''mapbox'', authority = ''styles'', path = ''/user/style'', params = []\<rparr>"
  by (simp add: parseUrl_def starts_with_def word_char_def authority_char_def path_group_def
        skip_question_def not_question_def line_terminator_def split_on_def)

text \<open>
  Claim C8 says that every wrapper returns a locator that is not first-party unchanged.
  \<open>normalizeSpriteURL\<close> appends the format and the extension to the path of such a locator,
  and \<open>normalizeTileURL\<close> looks at the scheme of the source locator, not of the tile
  locator: a tile locator that is not first-party is rewritten when its source is.
\<close>

theorem wrappers_counterexample:
  "\<not> isMapboxURL ''http://www.foo.com/bar'' \<and>
   normalizeSpriteURL example_config ''http://www.foo.com/bar'' ''@2x'' ''.png'' None =
     Inr ''http://www.foo.com/bar@2x.png'' \<and>
   ''http://www.foo.com/bar@2x.png'' \<noteq> ''http://www.foo.com/bar'' \<and>
   \<not> isMapboxURL ''http://a.tiles.mapbox.com/v4/a.b/0/0/0.png?access_token=tk.abc&x=1'' \<and>
   normalizeTileURL example_config \<lparr>devicePixelRatio = 1, supportsWebp = True\<rparr>
     ''http://a.tiles.mapbox.com/v4/a.b/0/0/0.png?access_token=tk.abc&x=1''
     (Some ''mapbox://a.b'') None =
     Inr ''http://a.tiles.mapbox.com/v4/a.b/0/0/0.webp?access_token=pk.key&x=1''"
proof -
  have 1: "\<not> isMapboxURL ''http://www.foo.com/bar''"
    by (simp add: isMapboxURL_def starts_with_def)
  have 2: "normalizeSpriteURL example_config ''http://www.foo.com/bar'' ''@2x'' ''.png'' None =
     Inr ''http://www.foo.com/bar@2x.png''"
    using 1 by (simp add: normalizeSpriteURL_def parse_foo formatUrl_def)
  have 3: "\<not> isMapboxURL ''http://a.tiles.mapbox.com/v4/a.b/0/0/0.png?access_token=tk.abc&x=1''"
    by (simp add: isMapboxURL_def starts_with_def)
  have 5: "replaceTempAccessToken example_config [''access_token=tk.abc'', ''x=1''] =
             [''access_token=pk.key'', ''x=1'']"
    by (simp add: replaceTempAccessToken_map replaced_def starts_with_def example_config_def)
  have 6: "normalizeTileURL example_config \<lparr>devicePixelRatio = 1, supportsWebp = True\<rparr>
     ''http://a.tiles.mapbox.com/v4/a.b/0/0/0.png?access_token=tk.abc&x=1''
     (Some ''mapbox://a.b'') None =
     Inr ''http://a.tiles.mapbox.com/v4/a.b/0/0/0.webp?access_token=pk.key&x=1''"
    using 5
    by (simp add: normalizeTileURL_def isMapboxURL_def starts_with_def parse_tile formatUrl_def
          image_extension_def)
  show ?thesis using 1 2 3 6 by simp
qed

text \<open>
  Claim C8, amended: \<open>normalizeStyleURL\<close>, \<open>normalizeGlyphsURL\<close> and \<open>normalizeSourceURL\<close>
  return a locator that is not first-party unchanged; \<open>normalizeSpriteURL\<close> parses it and
  formats it again with the format and the extension appended to its path (and fails if
  it does not parse); \<open>normalizeTileURL\<close> returns the tile locator unchanged when the source
  locator is absent, empty or not first-party. A first-party style, glyphs, source or sprite
  locator that parses has its path rewritten and is handed to \<open>makeAPIURL\<close>.
\<close>

theorem wrappers_pass_through:
  "(\<not> isMapboxURL loc \<longrightarrow>
      normalizeStyleURL cfg loc supplied = Inr loc \<and>
      normalizeGlyphsURL cfg loc supplied = Inr loc \<and>
      normalizeSourceURL cfg loc supplied = Inr loc \<and>
      normalizeSpriteURL cfg loc format extension supplied =
        (case parseUrl loc of
           Inl e \<Rightarrow> Inl e
         | Inr u \<Rightarrow> Inr (formatUrl (u\<lparr>path := path u @ format @ extension\<rparr>)))) \<and>
   (\<not> truthy src \<or> \<not> isMapboxURL (or_empty src) \<longrightarrow>
      normalizeTileURL cfg browser tile src tileSize = Inr tile) \<and>
   (isMapboxURL loc \<and> parseUrl loc = Inr u \<longrightarrow>
      normalizeStyleURL cfg loc supplied =
        makeAPIURL cfg (u\<lparr>path := ''/styles/v1'' @ path u\<rparr>) supplied \<and>
      normalizeGlyphsURL cfg loc supplied =
        makeAPIURL cfg (u\<lparr>path := ''/fonts/v1'' @ path u\<rparr>) supplied \<and>
      normalizeSourceURL cfg loc supplied =
        makeAPIURL cfg (u\<lparr>path := ''/v4/'' @ authority u @ ''.json'',
                            params := params u @ [''secure'']\<rparr>) supplied \<and>
      normalizeSpriteURL cfg loc format extension supplied =
        makeAPIURL cfg (u\<lparr>path := ''/styles/v1'' @ path u @ ''/sprite'' @ format @ extension\<rparr>)
          supplied)"
proof (intro conjI impI)
  assume n: "\<not> isMapboxURL loc"
  show "normalizeStyleURL cfg loc supplied = Inr loc"
    using n by (simp add: normalizeStyleURL_def)
  show "normalizeGlyphsURL cfg loc supplied = Inr loc"
    using n by (simp add: normalizeGlyphsURL_def)
  show "normalizeSourceURL cfg loc supplied = Inr loc"
    using n by (simp add: normalizeSourceURL_def)
  show "normalizeSpriteURL cfg loc format extension supplied =
        (case parseUrl loc of
           Inl e \<Rightarrow> Inl e
         | Inr u \<Rightarrow> Inr (formatUrl (u\<lparr>path := path u @ format @ extension\<rparr>)))"
    using n by (simp add: normalizeSpriteURL_def split: sum.splits)
next
  assume "\<not> truthy src \<or> \<not> isMapboxURL (or_empty src)"
  then show "normalizeTileURL cfg browser tile src tileSize = Inr tile"
    by (auto simp: normalizeTileURL_def)
next
  assume f: "isMapboxURL loc \<and> parseUrl loc = Inr u"
  show "normalizeStyleURL cfg loc supplied =
        makeAPIURL cfg (u\<lparr>path := ''/styles/v1'' @ path u\<rparr>) supplied"
    using f by (simp add: normalizeStyleURL_def)
  show "normalizeGlyphsURL cfg loc supplied =
        makeAPIURL cfg (u\<lparr>path := ''/fonts/v1'' @ path u\<rparr>) supplied"
    using f by (simp add: normalizeGlyphsURL_def)
  show "normalizeSourceURL cfg loc supplied =
        makeAPIURL cfg (u\<lparr>path := ''/v4/'' @ authority u @ ''.json'',
                            params := params u @ [''secure'']\<rparr>) supplied"
    using f by (simp add: normalizeSourceURL_def)
  show "normalizeSpriteURL cfg loc format extension supplied =
        makeAPIURL cfg (u\<lparr>path := ''/styles/v1'' @ path u @ ''/sprite'' @ format @ extension\<rparr>)
          supplied"
    using f by (simp add: normalizeSpriteURL_def)
qed

theorem wrappers_pass_through_witness:
  "\<not> isMapboxURL ''http://www.foo.com/bar'' \<and>
   normalizeStyleURL example_config ''http://www.foo.com/bar'' None = Inr ''http://www.foo.com/bar'' \<and>
   normalizeGlyphsURL example_config ''http://www.foo.com/bar'' None = Inr ''http://www.foo.com/bar'' \<and>
   normalizeSourceURL example_config ''http://www.foo.com/bar'' None = Inr ''http://www.foo.com/bar'' \<and>
   normalizeSpriteURL example_config ''http://www.foo.com/bar'' ''@2x'' ''.png'' None =
     Inr ''http://www.foo.com/bar@2x.png'' \<and>
   \<not> isMapboxURL (or_empty (Some ''http://www.foo.com/bar'')) \<and>
   normalizeTileURL example_config \<lparr>devicePixelRatio = 1, supportsWebp = True\<rparr>
     ''mapbox://tiles/0/0/0.png'' (Some ''http://www.foo.com/bar'') None = Inr ''mapbox://tiles/0/0/0.png'' \<and>
   isMapboxURL ''mapbox://styles/user/style'' \<and>
   normalizeStyleURL example_config ''mapbox://styles/user/style'' None =
     Inr ''https://api.mapbox.com/styles/v1/user/style?access_token=pk.key''"
proof -
  let ?foo = "''http://www.foo.com/bar''"
  let ?sty = "''mapbox://styles/user/style''"
  have 1: "\<not> isMapboxURL ?foo" by (simp add: isMapboxURL_def starts_with_def)
  have 2: "\<not> isMapboxURL (or_empty (Some ?foo))" by (simp add: isMapboxURL_def starts_with_def)
  have 3: "isMapboxURL ?sty" by (simp add: isMapboxURL_def starts_with_def)
  note a = wrappers_pass_through [where loc = ?foo and cfg = example_config and supplied = None
      and format = "''@2x''" and extension = "''.png''" and src = "Some ?foo"
      and browser = "\<lparr>devicePixelRatio = 1, supportsWebp = True\<rparr>"
      and tile = "''mapbox://tiles/0/0/0.png''" and tileSize = None]
  note b = wrappers_pass_through [where loc = ?sty and cfg = example_config and supplied = None
      and u = "\<lparr>protocol = ''mapbox'', authority = ''styles'', path = ''/user/style'', params = []\<rparr>"]
  have 4: "makeAPIURL example_config
             \<lparr>protocol = ''mapbox'', authority = ''styles'', path = ''/styles/v1/user/style'', params = []\<rparr>
             None = Inr ''https://api.mapbox.com/styles/v1/user/style?access_token=pk.key''"
    by (simp add: makeAPIURL_def example_config_def parse_api formatUrl_def)
  have 5: "normalizeStyleURL example_config ?sty None =
     Inr ''https://api.mapbox.com/styles/v1/user/style?access_token=pk.key''"
    using b 3 4 parse_style by simp
  have 6: "normalizeSpriteURL example_config ?foo ''@2x'' ''.png'' None = Inr ''http://www.foo.com/bar@2x.png''"
    using a 1 parse_foo by (simp add: formatUrl_def)
  show ?thesis using a 1 2 3 5 6 by simp
qed

section \<open>Properties of the telemetry events\<close>

subsection \<open>What each method leaves unchanged\<close>

declare Turnstile_processRequests.simps [simp del]

lemma fetchEventData_frame:
  "fetchEventData (st, w) = (st', w') \<Longrightarrow>
     (\<exists>d. st' = st\<lparr>eventData := d\<rparr>) \<and> (\<exists>fx. w' = w\<lparr>effects := fx\<rparr>)"
proof (cases "storageAvailable w")
  case False
  assume "fetchEventData (st, w) = (st', w')"
  with False have "st' = st\<lparr>eventData := eventData st\<rparr> \<and> w' = w\<lparr>effects := effects w\<rparr>"
    by auto
  then show ?thesis by blast
next
  case True
  assume f: "fetchEventData (st, w) = (st', w')"
  show ?thesis
  proof (cases "localStorage w (storageKey (config w))")
    case None
    with f True have "st' = st\<lparr>eventData := eventData st\<rparr> \<and> w' = w\<lparr>effects := effects w\<rparr>"
      by auto
    then show ?thesis by blast
  next
    case (Some item)
    show ?thesis
    proof (cases item)
      case Unparsable
      with f True Some have "st' = st\<lparr>eventData := eventData st\<rparr> \<and>
          w' = w\<lparr>effects := effects (warnOnce ''Unable to read from LocalStorage'' w)\<rparr>"
        by (auto simp: warnOnce_def)
      then show ?thesis by blast
    next
      case (Object d)
      with f True Some have "st' = st\<lparr>eventData := d\<rparr> \<and> w' = w\<lparr>effects := effects w\<rparr>"
        by auto
      then show ?thesis by blast
    qed
  qed
qed

lemma freshAnonId_frame:
  "freshAnonId env (st, w) = (st', w') \<Longrightarrow>
     (\<exists>d. st' = st\<lparr>eventData := d\<rparr>) \<and> (\<exists>n. w' = w\<lparr>uuids := n\<rparr>)"
  by (auto simp: freshAnonId_def)

lemma saveEventData_frame:
  "\<exists>items fx. saveEventData (st, w) = w\<lparr>localStorage := items, effects := fx\<rparr>"
proof (cases "storageAvailable w \<and> \<not> quotaExceeded w")
  case True
  then show ?thesis by auto
next
  case False
  have "saveEventData (st, w) = w\<lparr>localStorage := localStorage w,
          effects := effects (saveEventData (st, w))\<rparr>"
    using False by (auto simp: warnOnce_def)
  then show ?thesis by blast
qed

lemma postData_frame:
  "outstanding (postData req cb w) = outstanding w @ [(req, cb)] \<and>
   config (postData req cb w) = config w \<and> localStorage (postData req cb w) = localStorage w"
  by (simp add: postData_def)

lemma MapLoad_identify_frame:
  assumes "MapLoad_identify env (st, w) = (st', w')"
  shows "(\<exists>d. st' = st\<lparr>eventData := d\<rparr>) \<and> (\<exists>fx n. w' = w\<lparr>effects := fx, uuids := n\<rparr>)"
proof -
  obtain st2 w2 where f: "(if \<not> truthy (anonId (eventData st)) then fetchEventData (st, w) else (st, w)) = (st2, w2)"
    by (cases "(if \<not> truthy (anonId (eventData st)) then fetchEventData (st, w) else (st, w))") auto
  have "(\<exists>d. st2 = st\<lparr>eventData := d\<rparr>) \<and> (\<exists>fx. w2 = w\<lparr>effects := fx\<rparr>)"
  proof (cases "truthy (anonId (eventData st))")
    case True
    with f have "st2 = st\<lparr>eventData := eventData st\<rparr> \<and> w2 = w\<lparr>effects := effects w\<rparr>" by simp
    then show ?thesis by blast
  next
    case False
    with f have "fetchEventData (st, w) = (st2, w2)" by simp
    from fetchEventData_frame [OF this] show ?thesis .
  qed
  then obtain d fx where 2: "st2 = st\<lparr>eventData := d\<rparr>" "w2 = w\<lparr>effects := fx\<rparr>" by blast
  from assms f have 3: "(if \<not> validateUuid env (anonId (eventData st2)) then freshAnonId env (st2, w2)
        else (st2, w2)) = (st', w')"
    by (simp add: MapLoad_identify_def)
  show ?thesis
  proof (cases "validateUuid env (anonId (eventData st2))")
    case True
    with 3 2 have "st' = st\<lparr>eventData := d\<rparr> \<and> w' = w\<lparr>effects := fx, uuids := uuids w\<rparr>" by auto
    then show ?thesis by blast
  next
    case False
    with 3 have "freshAnonId env (st2, w2) = (st', w')" by simp
    from freshAnonId_frame [OF this] obtain d' n where "st' = st2\<lparr>eventData := d'\<rparr>" "w' = w2\<lparr>uuids := n\<rparr>"
      by blast
    with 2 have "st' = st\<lparr>eventData := d'\<rparr> \<and> w' = w\<lparr>effects := fx, uuids := n\<rparr>" by simp
    then show ?thesis by blast
  qed
qed

lemma MapLoad_processRequests_idle:
  "pendingRequest st \<noteq> None \<or> queue st = [] \<Longrightarrow> MapLoad_processRequests env (st, w) = (None, st, w)"
  by (simp add: MapLoad_processRequests_def)

lemma MapLoad_processRequests_frame:
  assumes "MapLoad_processRequests env (st, w) = (e, st', w')"
  shows "success st' = success st \<and> config w' = config w \<and>
         localStorage w' = localStorage w \<and>
         (outstanding w' = outstanding w \<and> pendingRequest st' = pendingRequest st \<or>
          (\<exists>req. pendingRequest st = None \<and> pendingRequest st' = Some req \<and> queue st \<noteq> [] \<and>
                 outstanding w' = outstanding w @ [(req, MapLoadDone (id_of (hd (queue st))))]))"
proof (cases "pendingRequest st \<noteq> None \<or> queue st = []")
  case True
  with assms show ?thesis by (simp add: MapLoad_processRequests_def)
next
  case idle: False
  let ?entry = "hd (queue st)"
  let ?st1 = "st\<lparr>queue := tl (queue st)\<rparr>"
  show ?thesis
  proof (cases "id_of ?entry \<noteq> 0 \<and> success st (id_of ?entry) = Some True")
    case True
    with assms idle show ?thesis by (auto simp: MapLoad_processRequests_def Let_def)
  next
    case False
    obtain st3 w3 where i: "MapLoad_identify env (?st1, w) = (st3, w3)"
      by (cases "MapLoad_identify env (?st1, w)") auto
    from MapLoad_identify_frame [OF i] obtain d fx n
      where fr: "st3 = ?st1\<lparr>eventData := d\<rparr>" "w3 = w\<lparr>effects := fx, uuids := n\<rparr>" by blast
    let ?payload = "\<lparr>event = ''map.load'', created = timestamp ?entry,
                      sdkIdentifier = ''mapbox-gl-js'', sdkVersion = version env,
                      enabled_telemetry = None, userId = anonId (eventData st3)\<rparr>"
    show ?thesis
    proof (cases "eventsRequest (config w3) ?payload")
      case (Inl err)
      with assms idle i have "st' = st3 \<and> w' = w3"
        by (simp add: MapLoad_processRequests_def Let_def if_not_P [OF False])
      with fr show ?thesis by simp
    next
      case (Inr request)
      with assms idle i
      have "st' = st3\<lparr>pendingRequest := Some request\<rparr> \<and>
            w' = postData request (MapLoadDone (id_of ?entry)) w3"
        by (simp add: MapLoad_processRequests_def Let_def if_not_P [OF False])
      with fr idle show ?thesis by (simp add: postData_frame)
    qed
  qed
qed

lemma eventsRequest_ok:
  "parseUrl (EVENTS_URL cfg) = Inr u \<Longrightarrow>
   eventsRequest cfg payload =
     Inr \<lparr>url = formatUrl (u\<lparr>params := params u @ [''access_token='' @ or_empty (ACCESS_TOKEN cfg)]\<rparr>),
          headers = [(''Content-Type'', ''text/plain'')], body = payload\<rparr>"
  by (simp add: eventsRequest_def)

text \<open>An idle instance whose head entry is not a known duplicate sends it.\<close>

lemma MapLoad_processRequests_send:
  assumes idle: "pendingRequest st = None" "queue st = entry # rest"
    and nodup: "\<not> (id_of entry \<noteq> 0 \<and> success st (id_of entry) = Some True)"
    and ep: "parseUrl (EVENTS_URL (config w)) = Inr u"
  shows "\<exists>d fx n req.
           MapLoad_processRequests env (st, w) =
             (None, st\<lparr>queue := rest, eventData := d, pendingRequest := Some req\<rparr>,
              w\<lparr>effects := fx @ [Posted req], uuids := n,
                outstanding := outstanding w @ [(req, MapLoadDone (id_of entry))]\<rparr>) \<and>
           url req = formatUrl (u\<lparr>params := params u @
                       [''access_token='' @ or_empty (ACCESS_TOKEN (config w))]\<rparr>) \<and>
           created (body req) = timestamp entry"
proof -
  let ?st1 = "st\<lparr>queue := rest\<rparr>"
  obtain st3 w3 where i: "MapLoad_identify env (?st1, w) = (st3, w3)"
    by (cases "MapLoad_identify env (?st1, w)") auto
  from MapLoad_identify_frame [OF i] obtain d fx n
    where fr: "st3 = ?st1\<lparr>eventData := d\<rparr>" "w3 = w\<lparr>effects := fx, uuids := n\<rparr>" by blast
  let ?payload = "\<lparr>event = ''map.load'', created = timestamp entry,
                    sdkIdentifier = ''mapbox-gl-js'', sdkVersion = version env,
                    enabled_telemetry = None, userId = anonId (eventData st3)\<rparr>"
  let ?req = "\<lparr>url = formatUrl (u\<lparr>params := params u @
                       [''access_token='' @ or_empty (ACCESS_TOKEN (config w))]\<rparr>),
               headers = [(''Content-Type'', ''text/plain'')], body = ?payload\<rparr>"
  have r: "eventsRequest (config w3) ?payload = Inr ?req"
    using ep fr by (simp add: eventsRequest_ok)
  have "MapLoad_processRequests env (st, w) =
          (None, st3\<lparr>pendingRequest := Some ?req\<rparr>, postData ?req (MapLoadDone (id_of entry)) w3)"
    using idle i r nodup by (simp add: MapLoad_processRequests_def Let_def if_not_P)
  then have "MapLoad_processRequests env (st, w) =
             (None, st\<lparr>queue := rest, eventData := d, pendingRequest := Some ?req\<rparr>,
              w\<lparr>effects := fx @ [Posted ?req], uuids := n,
                outstanding := outstanding w @ [(?req, MapLoadDone (id_of entry))]\<rparr>)"
    using fr by (simp add: postData_def)
  then show ?thesis by (intro exI [where x = ?req] exI [where x = d] exI [where x = fx] exI [where x = n]) simp
qed

lemma Turnstile_admit_frame:
  assumes "Turnstile_admit env (st, w) = (st', w', t, due)"
  shows "(\<exists>d. st' = st\<lparr>eventData := d, queue := tl (queue st)\<rparr>) \<and>
         (\<exists>fx n. w' = w\<lparr>effects := fx, uuids := n\<rparr>) \<and> t = hd (queue st)"
proof -
  let ?due0 = "truthy (accessToken (eventData st)) \<and> accessToken (eventData st) \<noteq> ACCESS_TOKEN (config w)"
  let ?st1 = "(if ?due0 then st\<lparr>eventData := (eventData st)\<lparr>anonId := None, lastSuccess := None\<rparr>\<rparr> else st)"
  let ?f = "(if \<not> truthy (anonId (eventData ?st1)) \<or> \<not> truthy_num (lastSuccess (eventData ?st1))
             then fetchEventData (?st1, w) else (?st1, w))"
  obtain st2 w2 where f: "?f = (st2, w2)" by (cases ?f) auto
  have 1: "\<exists>d. ?st1 = st\<lparr>eventData := d\<rparr>"
  proof (cases ?due0)
    case True
    have "?st1 = st\<lparr>eventData := (eventData st)\<lparr>anonId := None, lastSuccess := None\<rparr>\<rparr>"
      by (rule if_P [OF True])
    then show ?thesis by blast
  next
    case False
    have "?st1 = st" by (rule if_not_P [OF False])
    then have "?st1 = st\<lparr>eventData := eventData st\<rparr>" by simp
    then show ?thesis by blast
  qed
  have "(\<exists>d. st2 = ?st1\<lparr>eventData := d\<rparr>) \<and> (\<exists>fx. w2 = w\<lparr>effects := fx\<rparr>)"
  proof (cases "\<not> truthy (anonId (eventData ?st1)) \<or> \<not> truthy_num (lastSuccess (eventData ?st1))")
    case True
    have "fetchEventData (?st1, w) = (st2, w2)" using f unfolding if_P [OF True] .
    from fetchEventData_frame [OF this] show ?thesis .
  next
    case False
    have "(?st1, w) = (st2, w2)" using f unfolding if_not_P [OF False] .
    then have "st2 = ?st1\<lparr>eventData := eventData ?st1\<rparr> \<and> w2 = w\<lparr>effects := effects w\<rparr>"
      by (auto split: if_splits)
    then show ?thesis by blast
  qed
  with 1 obtain d fx where 2: "st2 = st\<lparr>eventData := d\<rparr>" "w2 = w\<lparr>effects := fx\<rparr>" by auto
  let ?g = "(if \<not> validateUuid env (anonId (eventData st2)) then freshAnonId env (st2, w2) else (st2, w2))"
  obtain st3 w3 where g: "?g = (st3, w3)" by (cases ?g) auto
  have "(\<exists>d. st3 = st2\<lparr>eventData := d\<rparr>) \<and> (\<exists>n. w3 = w2\<lparr>uuids := n\<rparr>)"
  proof (cases "validateUuid env (anonId (eventData st2))")
    case True
    with g have "st3 = st2\<lparr>eventData := eventData st2\<rparr> \<and> w3 = w2\<lparr>uuids := uuids w2\<rparr>" by simp
    then show ?thesis by blast
  next
    case False
    with g have "freshAnonId env (st2, w2) = (st3, w3)" by simp
    from freshAnonId_frame [OF this] show ?thesis .
  qed
  with 2 obtain d' n where 3: "st3 = st\<lparr>eventData := d'\<rparr>" "w3 = w\<lparr>effects := fx, uuids := n\<rparr>"
    by auto
  from assms f g have "st' = st3\<lparr>queue := tl (queue st3)\<rparr> \<and> w' = w3 \<and> t = hd (queue st3)"
    by (simp add: Turnstile_admit_def Let_def)
  with 3 have "st' = st\<lparr>eventData := d', queue := tl (queue st)\<rparr> \<and> w' = w\<lparr>effects := fx, uuids := n\<rparr> \<and>
     t = hd (queue st)" by simp
  then show ?thesis by blast
qed

lemma Turnstile_processRequests_idle:
  "pendingRequest st \<noteq> None \<or> queue st = [] \<Longrightarrow>
   Turnstile_processRequests env (st, w) = (None, st, w)"
  by (simp add: Turnstile_processRequests.simps)

lemma Turnstile_processRequests_skip:
  assumes "pendingRequest st = None" "queue st \<noteq> []"
    and "Turnstile_admit env (st, w) = (st1, w1, t, False)"
  shows "Turnstile_processRequests env (st, w) = Turnstile_processRequests env (st1, w1)"
  using assms by (simp add: Turnstile_processRequests.simps [of env st w])

lemma Turnstile_processRequests_due:
  assumes "pendingRequest st = None" "queue st \<noteq> []"
    and "Turnstile_admit env (st, w) = (st1, w1, t, True)"
  shows "Turnstile_processRequests env (st, w) =
           (case eventsRequest (config w1)
                   \<lparr>event = ''appUserTurnstile'', created = t,
                    sdkIdentifier = ''mapbox-gl-js'', sdkVersion = version env,
                    enabled_telemetry = Some False, userId = anonId (eventData st1)\<rparr> of
              Inl e \<Rightarrow> (Some e, st1, w1)
            | Inr request \<Rightarrow>
                (None, st1\<lparr>pendingRequest := Some request\<rparr>,
                 postData request (TurnstileDone t) w1))"
  using assms by (simp add: Turnstile_processRequests.simps [of env st w])

lemma Turnstile_processRequests_frame:
  "Turnstile_processRequests env sw = (e, st', w') \<Longrightarrow>
     config w' = config (snd sw) \<and> localStorage w' = localStorage (snd sw) \<and>
     (outstanding w' = outstanding (snd sw) \<and> pendingRequest st' = pendingRequest (fst sw) \<or>
      (\<exists>req t. pendingRequest (fst sw) = None \<and> pendingRequest st' = Some req \<and>
               outstanding w' = outstanding (snd sw) @ [(req, TurnstileDone t)]))"
proof (induction env sw arbitrary: e st' w' rule: Turnstile_processRequests.induct)
  case (1 env st w)
  show ?case
  proof (cases "pendingRequest st \<noteq> None \<or> queue st = []")
    case True
    with "1.prems" show ?thesis by (auto simp: Turnstile_processRequests_idle)
  next
    case False
    then have idle: "pendingRequest st = None" "queue st \<noteq> []" by simp_all
    obtain st1 w1 t due where a: "Turnstile_admit env (st, w) = (st1, w1, t, due)"
      by (cases "Turnstile_admit env (st, w)") auto
    from Turnstile_admit_frame [OF a] obtain d fx n where
      fr: "st1 = st\<lparr>eventData := d, queue := tl (queue st)\<rparr>" "w1 = w\<lparr>effects := fx, uuids := n\<rparr>"
      by blast
    show ?thesis
    proof (cases due)
      case False
      with a have a': "Turnstile_admit env (st, w) = (st1, w1, t, False)" by simp
      from "1.prems" Turnstile_processRequests_skip [OF idle a']
      have r: "Turnstile_processRequests env (st1, w1) = (e, st', w')" by simp
      have ng: "\<not> (pendingRequest st \<noteq> None \<or> queue st = [])" using idle by simp
      have nf: "\<not> False" by simp
      from "1.IH" [OF ng a' [symmetric] refl refl nf r] fr
      show ?thesis by simp
    next
      case True
      with a have a': "Turnstile_admit env (st, w) = (st1, w1, t, True)" by simp
      let ?payload = "\<lparr>event = ''appUserTurnstile'', created = t,
                    sdkIdentifier = ''mapbox-gl-js'', sdkVersion = version env,
                    enabled_telemetry = Some False, userId = anonId (eventData st1)\<rparr>"
      show ?thesis
      proof (cases "eventsRequest (config w1) ?payload")
        case (Inl err)
        with "1.prems" Turnstile_processRequests_due [OF idle a']
        have "st' = st1 \<and> w' = w1" by simp
        with fr show ?thesis by simp
      next
        case (Inr request)
        with "1.prems" Turnstile_processRequests_due [OF idle a']
        have "st' = st1\<lparr>pendingRequest := Some request\<rparr> \<and> w' = postData request (TurnstileDone t) w1"
          by simp
        with fr idle show ?thesis by (simp add: postData_frame)
      qed
    qed
  qed
qed

subsection \<open>The in-flight slot and the transport\<close>

declare fetchEventData.simps [simp del] saveEventData.simps [simp del]

lemma filter_remove_nth:
  assumes "k < length xs"
  shows "(P (xs ! k) \<longrightarrow> Suc (length (filter P (remove_nth k xs))) = length (filter P xs)) \<and>
         (\<not> P (xs ! k) \<longrightarrow> filter P (remove_nth k xs) = filter P xs)"
proof -
  have "xs = take k xs @ xs ! k # drop (Suc k) xs"
    using assms by (rule id_take_nth_drop)
  then have "filter P xs = filter P (take k xs) @ filter P [xs ! k] @ filter P (drop (Suc k) xs)"
    by (metis append_Cons append_Nil filter_append)
  then show ?thesis by (simp add: remove_nth_def)
qed

lemma saveEventData_outstanding: "outstanding (saveEventData (st, w)) = outstanding w"
proof -
  obtain items fx where "saveEventData (st, w) = w\<lparr>localStorage := items, effects := fx\<rparr>"
    using saveEventData_frame by blast
  then show ?thesis by simp
qed

lemma MapLoad_dispatch_in_flight:
  assumes "MapLoad_processRequests env (st, w) = (e, st', w')" and "mapLoad_in_flight_ok st w"
  shows "mapLoad_in_flight_ok st' w' \<and> turnstileOutstanding w' = turnstileOutstanding w \<and>
         success st' = success st"
  using MapLoad_processRequests_frame [OF assms(1)] assms(2)
  by (elim conjE disjE exE)
     (simp_all add: mapLoad_in_flight_ok_def mapLoadOutstanding_def turnstileOutstanding_def)

lemma Turnstile_dispatch_in_flight:
  assumes "Turnstile_processRequests env (st, w) = (e, st', w')" and "turnstile_in_flight_ok st w"
  shows "turnstile_in_flight_ok st' w' \<and> mapLoadOutstanding w' = mapLoadOutstanding w"
  using Turnstile_processRequests_frame [OF assms(1)] assms(2)
  by (elim conjE disjE exE)
     (simp_all add: turnstile_in_flight_ok_def mapLoadOutstanding_def turnstileOutstanding_def)

lemma MapLoad_callback_success:
  assumes "MapLoad_callback env ident err (st, w) = (e, st', w')"
  shows "success st' =
           (if err = None \<and> ident \<noteq> 0 then (success st)(ident \<mapsto> True) else success st)"
proof (cases err)
  case (Some x)
  with assms show ?thesis by (auto simp: MapLoad_callback_def)
next
  case None
  let ?st2 = "(if ident \<noteq> 0 then st\<lparr>pendingRequest := None, success := (success st)(ident \<mapsto> True)\<rparr>
               else st\<lparr>pendingRequest := None\<rparr>)"
  from assms None have "MapLoad_processRequests env (?st2, saveEventData (?st2, w)) = (e, st', w')"
    by (cases "ident = 0") (simp_all add: MapLoad_callback_def Let_def)
  from MapLoad_processRequests_frame [OF this] have "success st' = success ?st2" by simp
  with None show ?thesis by simp
qed

lemma MapLoad_callback_in_flight:
  assumes "MapLoad_callback env ident err (st, w) = (e, st', w')" and "mapLoadOutstanding w = []"
  shows "mapLoad_in_flight_ok st' w' \<and> turnstileOutstanding w' = turnstileOutstanding w"
proof (cases err)
  case (Some x)
  with assms show ?thesis by (auto simp: MapLoad_callback_def mapLoad_in_flight_ok_def)
next
  case None
  let ?st2 = "(if ident \<noteq> 0 then st\<lparr>pendingRequest := None, success := (success st)(ident \<mapsto> True)\<rparr>
               else st\<lparr>pendingRequest := None\<rparr>)"
  let ?w2 = "saveEventData (?st2, w)"
  from assms None have d: "MapLoad_processRequests env (?st2, ?w2) = (e, st', w')"
    by (cases "ident = 0") (simp_all add: MapLoad_callback_def Let_def)
  have o: "outstanding ?w2 = outstanding w" by (rule saveEventData_outstanding)
  have "mapLoad_in_flight_ok ?st2 ?w2"
    using assms(2) o by (simp add: mapLoad_in_flight_ok_def mapLoadOutstanding_def)
  from MapLoad_dispatch_in_flight [OF d this] o show ?thesis
    by (simp add: turnstileOutstanding_def)
qed

lemma Turnstile_callback_in_flight:
  assumes "Turnstile_callback env nextUpdate err (st, w) = (e, st', w')"
    and "turnstileOutstanding w = []"
  shows "turnstile_in_flight_ok st' w' \<and> mapLoadOutstanding w' = mapLoadOutstanding w"
proof (cases err)
  case (Some x)
  with assms show ?thesis by (auto simp: Turnstile_callback_def turnstile_in_flight_ok_def)
next
  case None
  let ?st2 = "st\<lparr>pendingRequest := None,
                  eventData := (eventData st)\<lparr>lastSuccess := Some nextUpdate,
                                              accessToken := ACCESS_TOKEN (config w)\<rparr>\<rparr>"
  let ?w2 = "saveEventData (?st2, w)"
  from assms None have d: "Turnstile_processRequests env (?st2, ?w2) = (e, st', w')"
    by (simp add: Turnstile_callback_def Let_def)
  have o: "outstanding ?w2 = outstanding w" by (rule saveEventData_outstanding)
  have "turnstile_in_flight_ok ?st2 ?w2"
    using assms(2) o by (simp add: turnstile_in_flight_ok_def turnstileOutstanding_def)
  from Turnstile_dispatch_in_flight [OF d this] o show ?thesis
    by (simp add: mapLoadOutstanding_def)
qed

lemma postMapLoadEvent_in_flight:
  assumes "postMapLoadEvent env tileUrls mapId now (st, w) = (e, st', w')"
    and "mapLoad_in_flight_ok st w"
  shows "mapLoad_in_flight_ok st' w' \<and> turnstileOutstanding w' = turnstileOutstanding w \<and>
         success st' = success st"
proof (cases "truthy (ACCESS_TOKEN (config w)) \<and> list_ex isMapboxHTTPURL tileUrls")
  case False
  with assms show ?thesis by (auto simp: postMapLoadEvent_def)
next
  case True
  let ?st = "st\<lparr>queue := queue st @ [\<lparr>id_of = mapId, timestamp = now\<rparr>]\<rparr>"
  from assms(1) have d: "MapLoad_processRequests env (?st, w) = (e, st', w')"
    by (simp add: postMapLoadEvent_def queueRequest_def if_P [OF True])
  have "mapLoad_in_flight_ok ?st w" using assms(2) by (simp add: mapLoad_in_flight_ok_def)
  from MapLoad_dispatch_in_flight [OF d this] show ?thesis by simp
qed

lemma postTurnstileEvent_in_flight:
  assumes "postTurnstileEvent env tileUrls now (st, w) = (e, st', w')"
    and "turnstile_in_flight_ok st w"
  shows "turnstile_in_flight_ok st' w' \<and> mapLoadOutstanding w' = mapLoadOutstanding w"
proof (cases "truthy (ACCESS_TOKEN (config w)) \<and> list_ex isMapboxHTTPURL tileUrls")
  case False
  with assms show ?thesis by (auto simp: postTurnstileEvent_def)
next
  case True
  let ?st = "st\<lparr>queue := queue st @ [now]\<rparr>"
  from assms(1) have d: "Turnstile_processRequests env (?st, w) = (e, st', w')"
    by (simp add: postTurnstileEvent_def queueRequest_def if_P [OF True])
  have "turnstile_in_flight_ok ?st w" using assms(2) by (simp add: turnstile_in_flight_ok_def)
  from Turnstile_dispatch_in_flight [OF d this] show ?thesis by simp
qed

text \<open>Every action keeps the slots and the transport in agreement, and never marks 0.\<close>

lemma step_in_flight:
  assumes "in_flight_ok m"
  shows "in_flight_ok (step env a m)"
proof -
  from assms have ml: "mapLoad_in_flight_ok (mapLoadEvent m) (world m)"
    and ts: "turnstile_in_flight_ok (turnstileEvent m) (world m)"
    by (simp_all add: in_flight_ok_def)
  show ?thesis
  proof (cases a)
    case (PostMapLoad tileUrls mapId now)
    obtain e st' w' where
      r: "postMapLoadEvent env tileUrls mapId now (mapLoadEvent m, world m) = (e, st', w')"
      by (cases "postMapLoadEvent env tileUrls mapId now (mapLoadEvent m, world m)") auto
    from postMapLoadEvent_in_flight [OF r ml] ts PostMapLoad r show ?thesis
      by (simp add: in_flight_ok_def turnstile_in_flight_ok_def)
  next
    case (PostTurnstile tileUrls now)
    obtain e st' w' where
      r: "postTurnstileEvent env tileUrls now (turnstileEvent m, world m) = (e, st', w')"
      by (cases "postTurnstileEvent env tileUrls now (turnstileEvent m, world m)") auto
    from postTurnstileEvent_in_flight [OF r ts] ml PostTurnstile r show ?thesis
      by (simp add: in_flight_ok_def mapLoad_in_flight_ok_def)
  next
    case (Complete k err)
    show ?thesis
    proof (cases "k < length (outstanding (world m))")
      case False
      with Complete assms show ?thesis by simp
    next
      case True
      let ?w = "(world m)\<lparr>outstanding := remove_nth k (outstanding (world m))\<rparr>"
      note f = filter_remove_nth [OF True]
      show ?thesis
      proof (cases "snd (outstanding (world m) ! k)")
        case (MapLoadDone ident)
        have 1: "mapLoadOutstanding ?w = []"
          using f [of "\<lambda>rc. isMapLoadDone (snd rc)"] ml MapLoadDone
          by (auto simp: mapLoadOutstanding_def mapLoad_in_flight_ok_def split: if_splits)
        have 2: "turnstileOutstanding ?w = turnstileOutstanding (world m)"
          using f [of "\<lambda>rc. \<not> isMapLoadDone (snd rc)"] MapLoadDone
          by (simp add: turnstileOutstanding_def)
        obtain e st' w' where
          r: "MapLoad_callback env ident err (mapLoadEvent m, ?w) = (e, st', w')"
          by (cases "MapLoad_callback env ident err (mapLoadEvent m, ?w)") auto
        from MapLoad_callback_in_flight [OF r 1] 2 ts Complete True MapLoadDone r show ?thesis
          by (simp add: in_flight_ok_def turnstile_in_flight_ok_def Let_def)
      next
        case (TurnstileDone nextUpdate)
        have 1: "turnstileOutstanding ?w = []"
          using f [of "\<lambda>rc. \<not> isMapLoadDone (snd rc)"] ts TurnstileDone
          by (auto simp: turnstileOutstanding_def turnstile_in_flight_ok_def split: if_splits)
        have 2: "mapLoadOutstanding ?w = mapLoadOutstanding (world m)"
          using f [of "\<lambda>rc. isMapLoadDone (snd rc)"] TurnstileDone
          by (simp add: mapLoadOutstanding_def)
        obtain e st' w' where
          r: "Turnstile_callback env nextUpdate err (turnstileEvent m, ?w) = (e, st', w')"
          by (cases "Turnstile_callback env nextUpdate err (turnstileEvent m, ?w)") auto
        from Turnstile_callback_in_flight [OF r 1] 2 ml Complete True TurnstileDone r show ?thesis
          by (simp add: in_flight_ok_def mapLoad_in_flight_ok_def Let_def)
      qed
    qed
  next
    case (SetConfig cfg)
    with assms show ?thesis
      by (simp add: in_flight_ok_def mapLoad_in_flight_ok_def turnstile_in_flight_ok_def
            mapLoadOutstanding_def turnstileOutstanding_def)
  next
    case (SetStorage avail quota items)
    with assms show ?thesis
      by (simp add: in_flight_ok_def mapLoad_in_flight_ok_def turnstile_in_flight_ok_def
            mapLoadOutstanding_def turnstileOutstanding_def)
  qed
qed

lemma step_success_zero:
  assumes "success (mapLoadEvent m) 0 = None"
  shows "success (mapLoadEvent (step env a m)) 0 = None"
proof (cases a)
  case (PostMapLoad tileUrls mapId now)
  obtain e st' w' where
    r: "postMapLoadEvent env tileUrls mapId now (mapLoadEvent m, world m) = (e, st', w')"
    by (cases "postMapLoadEvent env tileUrls mapId now (mapLoadEvent m, world m)") auto
  have "success st' = success (mapLoadEvent m)"
  proof (cases "truthy (ACCESS_TOKEN (config (world m))) \<and> list_ex isMapboxHTTPURL tileUrls")
    case False
    with r show ?thesis by (auto simp: postMapLoadEvent_def)
  next
    case True
    from r have "MapLoad_processRequests env
        ((mapLoadEvent m)\<lparr>queue := queue (mapLoadEvent m) @ [\<lparr>id_of = mapId, timestamp = now\<rparr>]\<rparr>,
         world m) = (e, st', w')"
      by (simp add: postMapLoadEvent_def queueRequest_def if_P [OF True])
    from MapLoad_processRequests_frame [OF this] show ?thesis by simp
  qed
  with assms PostMapLoad r show ?thesis by simp
next
  case (PostTurnstile tileUrls now)
  with assms show ?thesis by (simp split: prod.splits)
next
  case (Complete k err)
  show ?thesis
  proof (cases "k < length (outstanding (world m))")
    case False
    with Complete assms show ?thesis by simp
  next
    case True
    let ?w = "(world m)\<lparr>outstanding := remove_nth k (outstanding (world m))\<rparr>"
    show ?thesis
    proof (cases "snd (outstanding (world m) ! k)")
      case (MapLoadDone ident)
      obtain e st' w' where
        r: "MapLoad_callback env ident err (mapLoadEvent m, ?w) = (e, st', w')"
        by (cases "MapLoad_callback env ident err (mapLoadEvent m, ?w)") auto
      from MapLoad_callback_success [OF r] assms have "success st' 0 = None" by simp
      with Complete True MapLoadDone r show ?thesis by (simp add: Let_def)
    next
      case (TurnstileDone nextUpdate)
      with Complete True assms show ?thesis by (simp add: Let_def split: prod.splits)
    qed
  qed
next
  case (SetConfig cfg)
  with assms show ?thesis by simp
next
  case (SetStorage avail quota items)
  with assms show ?thesis by simp
qed

lemma run_in_flight: "in_flight_ok m \<Longrightarrow> in_flight_ok (run env as m)"
  by (induction as arbitrary: m) (simp_all add: step_in_flight)

lemma run_success_zero:
  "success (mapLoadEvent m) 0 = None \<Longrightarrow> success (mapLoadEvent (run env as m)) 0 = None"
  by (induction as arbitrary: m) (simp_all add: step_success_zero)

lemma new_Module_in_flight: "in_flight_ok (new_Module cfg avail quota items)"
  by (simp add: in_flight_ok_def mapLoad_in_flight_ok_def turnstile_in_flight_ok_def
        new_Module_def new_World_def new_MapLoadEvent_def new_TurnstileEvent_def
        mapLoadOutstanding_def turnstileOutstanding_def)

lemma new_Module_success: "success (mapLoadEvent (new_Module cfg avail quota items)) = Map.empty"
  by (simp add: new_Module_def new_MapLoadEvent_def)

subsection \<open>Evaluation on the examples\<close>

lemma parse_events:
  "parseUrl ''https://events.mapbox.com/events/v2'' =
     Inr \<lparr>protocol = ''https'', authority = ''events.mapbox.com'', path = ''/events/v2'',
          params = []\<rparr>"
  by (simp add: parseUrl_def starts_with_def word_char_def authority_char_def path_group_def
        skip_question_def not_question_def)

lemma example_eventsRequest:
  "eventsRequest example_config payload = Inr (example_request payload)"
  by (simp add: eventsRequest_def example_config_def parse_events formatUrl_def example_request_def)

lemma first_party_tile: "isMapboxHTTPURL ''https://a.tiles.mapbox.com/v4/a/0/0/0.png''"
  by (simp add: isMapboxHTTPURL_def mapboxHTTPURLRe_def ci_def)

lemma foreign_tile: "\<not> isMapboxHTTPURL ''https://example.com/0/0/0.png''"
  by (simp add: isMapboxHTTPURL_def mapboxHTTPURLRe_def ci_def)

lemma example_admit_same_day:
  "Turnstile_admit example_env (example_TurnstileEvent, example_world) =
     (example_TurnstileEvent\<lparr>queue := [86401000]\<rparr>, example_world, 2000, False)"
  by (simp add: Turnstile_admit_def Let_def example_TurnstileEvent_def example_world_def
        new_World_def example_config_def example_env_def example_uuid_def)

lemma example_admit_next_day:
  "Turnstile_admit example_env (example_TurnstileEvent\<lparr>queue := [86401000]\<rparr>, example_world) =
     (example_TurnstileEvent\<lparr>queue := []\<rparr>, example_world, 86401000, True)"
  by (simp add: Turnstile_admit_def Let_def example_TurnstileEvent_def example_world_def
        new_World_def example_config_def example_env_def example_uuid_def)

lemma example_next_day_dispatch:
  "Turnstile_processRequests example_env
     (example_TurnstileEvent\<lparr>queue := [86401000]\<rparr>, example_world) =
     (None,
      example_TurnstileEvent\<lparr>queue := [], pendingRequest := Some example_next_day_request\<rparr>,
      example_world\<lparr>outstanding := [(example_next_day_request, TurnstileDone 86401000)],
                     effects := [Posted example_next_day_request]\<rparr>)"
proof -
  have i: "pendingRequest (example_TurnstileEvent\<lparr>queue := [86401000]\<rparr>) = None"
    "queue (example_TurnstileEvent\<lparr>queue := [86401000]\<rparr>) \<noteq> []"
    by (simp_all add: example_TurnstileEvent_def)
  have c: "config example_world = example_config"
    by (simp add: example_world_def new_World_def)
  show ?thesis
    unfolding Turnstile_processRequests_due [OF i example_admit_next_day] c example_eventsRequest
    by (simp add: postData_def example_world_def new_World_def example_next_day_request_def
          example_TurnstileEvent_def example_env_def)
qed

subsection \<open>Completion with an error\<close>

text \<open>
  Claim C1: when the transport reports an error, the callback of either class clears the
  in-flight slot and does nothing else. It throws nothing, and the queue, the event data,
  the success set, the storage and the trace of effects are as before; in the module only
  the slot of the instance changes, and the transport no longer holds the request.
\<close>

theorem completion_error_only_clears_slot:
  "MapLoad_callback env ident (Some err) (st, w) = (None, st\<lparr>pendingRequest := None\<rparr>, w) \<and>
   Turnstile_callback env nextUpdate (Some err) (ts, w) = (None, ts\<lparr>pendingRequest := None\<rparr>, w) \<and>
   (k < length (outstanding (world m)) \<longrightarrow>
      step env (Complete k (Some err)) m =
        (case snd (outstanding (world m) ! k) of
           MapLoadDone i \<Rightarrow>
             m\<lparr>mapLoadEvent := (mapLoadEvent m)\<lparr>pendingRequest := None\<rparr>,
               world := (world m)\<lparr>outstanding := remove_nth k (outstanding (world m))\<rparr>\<rparr>
         | TurnstileDone t \<Rightarrow>
             m\<lparr>turnstileEvent := (turnstileEvent m)\<lparr>pendingRequest := None\<rparr>,
               world := (world m)\<lparr>outstanding := remove_nth k (outstanding (world m))\<rparr>\<rparr>))"
proof (intro conjI impI)
  show 1: "MapLoad_callback env ident (Some err) (st, w) = (None, st\<lparr>pendingRequest := None\<rparr>, w)"
    for ident st w by (simp add: MapLoad_callback_def)
  show 2: "Turnstile_callback env nextUpdate (Some err) (ts, w) = (None, ts\<lparr>pendingRequest := None\<rparr>, w)"
    for nextUpdate ts w by (simp add: Turnstile_callback_def)
  assume "k < length (outstanding (world m))"
  then show "step env (Complete k (Some err)) m =
        (case snd (outstanding (world m) ! k) of
           MapLoadDone i \<Rightarrow>
             m\<lparr>mapLoadEvent := (mapLoadEvent m)\<lparr>pendingRequest := None\<rparr>,
               world := (world m)\<lparr>outstanding := remove_nth k (outstanding (world m))\<rparr>\<rparr>
         | TurnstileDone t \<Rightarrow>
             m\<lparr>turnstileEvent := (turnstileEvent m)\<lparr>pendingRequest := None\<rparr>,
               world := (world m)\<lparr>outstanding := remove_nth k (outstanding (world m))\<rparr>\<rparr>)"
    by (cases "snd (outstanding (world m) ! k)") (simp_all add: 1 2 Let_def)
qed

theorem completion_error_only_clears_slot_witness:
  "MapLoad_callback example_env 7 (Some TransportError)
     (example_MapLoadEvent\<lparr>pendingRequest := Some example_pending\<rparr>, example_world) =
     (None, example_MapLoadEvent, example_world) \<and>
   Turnstile_callback example_env 2000 (Some TransportError)
     (example_TurnstileEvent\<lparr>pendingRequest := Some example_pending\<rparr>, example_world) =
     (None, example_TurnstileEvent, example_world) \<and>
   0 < length (outstanding (example_world\<lparr>outstanding := [(example_pending, MapLoadDone 7)]\<rparr>)) \<and>
   step example_env (Complete 0 (Some TransportError))
     \<lparr>mapLoadEvent = example_MapLoadEvent\<lparr>pendingRequest := Some example_pending\<rparr>,
      turnstileEvent = example_TurnstileEvent,
      world = example_world\<lparr>outstanding := [(example_pending, MapLoadDone 7)]\<rparr>\<rparr> =
     \<lparr>mapLoadEvent = example_MapLoadEvent, turnstileEvent = example_TurnstileEvent,
      world = example_world\<rparr>"
proof -
  let ?m = "\<lparr>mapLoadEvent = example_MapLoadEvent\<lparr>pendingRequest := Some example_pending\<rparr>,
      turnstileEvent = example_TurnstileEvent,
      world = example_world\<lparr>outstanding := [(example_pending, MapLoadDone 7)]\<rparr>\<rparr>"
  note a = completion_error_only_clears_slot [where env = example_env and ident = 7
      and err = TransportError and st = "example_MapLoadEvent\<lparr>pendingRequest := Some example_pending\<rparr>"
      and w = example_world and nextUpdate = 2000
      and ts = "example_TurnstileEvent\<lparr>pendingRequest := Some example_pending\<rparr>"
      and k = 0 and m = ?m]
  have 1: "example_MapLoadEvent\<lparr>pendingRequest := None\<rparr> = example_MapLoadEvent"
    by (simp add: example_MapLoadEvent_def)
  have 2: "example_TurnstileEvent\<lparr>pendingRequest := None\<rparr> = example_TurnstileEvent"
    by (simp add: example_TurnstileEvent_def)
  have 3: "example_world\<lparr>outstanding := []\<rparr> = example_world"
    by (simp add: example_world_def new_World_def)
  show ?thesis using a 1 2 3 by (simp add: remove_nth_def)
qed

subsection \<open>The gate of the reporting functions\<close>

text \<open>
  Claim C5: \<open>postMapLoadEvent\<close> and \<open>postTurnstileEvent\<close>, called with a list of locators,
  append an entry to the queue and call \<open>processRequests\<close> exactly when an access token is
  configured and one of the locators matches the first-party HTTP pattern; otherwise they
  leave the instance and the world as they are.
\<close>

theorem report_gate:
  "(truthy (ACCESS_TOKEN (config w)) \<and> (\<exists>u \<in> set tileUrls. isMapboxHTTPURL u) \<longrightarrow>
      postMapLoadEvent env tileUrls mapId now (st, w) =
        MapLoad_processRequests env (st\<lparr>queue := queue st @ [\<lparr>id_of = mapId, timestamp = now\<rparr>]\<rparr>, w) \<and>
      postTurnstileEvent env tileUrls now (ts, w) =
        Turnstile_processRequests env (ts\<lparr>queue := queue ts @ [now]\<rparr>, w)) \<and>
   (\<not> (truthy (ACCESS_TOKEN (config w)) \<and> (\<exists>u \<in> set tileUrls. isMapboxHTTPURL u)) \<longrightarrow>
      postMapLoadEvent env tileUrls mapId now (st, w) = (None, st, w) \<and>
      postTurnstileEvent env tileUrls now (ts, w) = (None, ts, w))"
  by (auto simp: postMapLoadEvent_def postTurnstileEvent_def queueRequest_def list_ex_iff)

theorem report_gate_witness:
  "truthy (ACCESS_TOKEN (config example_world)) \<and>
   isMapboxHTTPURL ''https://a.tiles.mapbox.com/v4/a/0/0/0.png'' \<and>
   postMapLoadEvent example_env [''https://a.tiles.mapbox.com/v4/a/0/0/0.png''] 8 4000
     (example_MapLoadEvent, example_world) =
     MapLoad_processRequests example_env
       (example_MapLoadEvent\<lparr>queue := queue example_MapLoadEvent @ [\<lparr>id_of = 8, timestamp = 4000\<rparr>]\<rparr>,
        example_world) \<and>
   postTurnstileEvent example_env [''https://a.tiles.mapbox.com/v4/a/0/0/0.png''] 4000
     (example_TurnstileEvent, example_world) =
     Turnstile_processRequests example_env
       (example_TurnstileEvent\<lparr>queue := queue example_TurnstileEvent @ [4000]\<rparr>, example_world) \<and>
   \<not> isMapboxHTTPURL ''https://example.com/0/0/0.png'' \<and>
   postMapLoadEvent example_env [''https://example.com/0/0/0.png''] 8 4000
     (example_MapLoadEvent, example_world) = (None, example_MapLoadEvent, example_world) \<and>
   postTurnstileEvent example_env [''https://example.com/0/0/0.png''] 4000
     (example_TurnstileEvent, example_world) = (None, example_TurnstileEvent, example_world)"
proof -
  have t: "truthy (ACCESS_TOKEN (config example_world))"
    by (simp add: example_world_def new_World_def example_config_def)
  note a = report_gate [where w = example_world and env = example_env
      and tileUrls = "[''https://a.tiles.mapbox.com/v4/a/0/0/0.png'']" and mapId = 8 and now = 4000
      and st = example_MapLoadEvent and ts = example_TurnstileEvent]
  note b = report_gate [where w = example_world and env = example_env
      and tileUrls = "[''https://example.com/0/0/0.png'']" and mapId = 8 and now = 4000
      and st = example_MapLoadEvent and ts = example_TurnstileEvent]
  show ?thesis using t first_party_tile foreign_tile a b by simp
qed

subsection \<open>Skipping an entry\<close>

text \<open>
  Claim C2: the two classes skip differently. An idle map-load instance whose head entry
  has an identifier marked true in \<open>success\<close> drops that entry and returns: no request, no
  look at the entries behind it. This is stated for a state in which 0 is not marked, and
  every state that the module reaches is such a state. An idle turnstile instance whose
  head time stamp is not due drops it and goes on with the rest of the queue, the slot
  still free.
\<close>

theorem skip_asymmetry:
  "(pendingRequest st = None \<and> queue st = entry # rest \<and> success st 0 \<noteq> Some True \<and>
    success st (id_of entry) = Some True \<longrightarrow>
      MapLoad_processRequests env (st, w) = (None, st\<lparr>queue := rest\<rparr>, w)) \<and>
   success (mapLoadEvent (run env as (new_Module cfg avail quota items))) 0 \<noteq> Some True \<and>
   (pendingRequest ts = None \<and> queue ts = t # later \<and>
    Turnstile_admit env (ts, w) = (ts', w', n, False) \<longrightarrow>
      n = t \<and> queue ts' = later \<and> pendingRequest ts' = None \<and>
      Turnstile_processRequests env (ts, w) = Turnstile_processRequests env (ts', w'))"
proof (intro conjI impI)
  assume a: "pendingRequest st = None \<and> queue st = entry # rest \<and> success st 0 \<noteq> Some True \<and>
    success st (id_of entry) = Some True"
  then have "id_of entry \<noteq> 0" by auto
  with a show "MapLoad_processRequests env (st, w) = (None, st\<lparr>queue := rest\<rparr>, w)"
    by (simp add: MapLoad_processRequests_def)
next
  have "success (mapLoadEvent (run env as (new_Module cfg avail quota items))) 0 = None"
    by (rule run_success_zero) (simp add: new_Module_success)
  then show "success (mapLoadEvent (run env as (new_Module cfg avail quota items))) 0 \<noteq> Some True"
    by simp
next
  assume a: "pendingRequest ts = None \<and> queue ts = t # later \<and>
    Turnstile_admit env (ts, w) = (ts', w', n, False)"
  then have ad: "Turnstile_admit env (ts, w) = (ts', w', n, False)" by simp
  from Turnstile_admit_frame [OF ad] a
  show "n = t" "queue ts' = later" "pendingRequest ts' = None" by auto
  from a have "pendingRequest ts = None" "queue ts \<noteq> []" by simp_all
  from Turnstile_processRequests_skip [OF this ad]
  show "Turnstile_processRequests env (ts, w) = Turnstile_processRequests env (ts', w')" .
qed

theorem skip_asymmetry_witness:
  "pendingRequest example_MapLoadEvent = None \<and>
   queue example_MapLoadEvent = \<lparr>id_of = 7, timestamp = 2000\<rparr> # [\<lparr>id_of = 8, timestamp = 3000\<rparr>] \<and>
   success example_MapLoadEvent 0 \<noteq> Some True \<and>
   success example_MapLoadEvent 7 = Some True \<and>
   MapLoad_processRequests example_env (example_MapLoadEvent, example_world) =
     (None, example_MapLoadEvent\<lparr>queue := [\<lparr>id_of = 8, timestamp = 3000\<rparr>]\<rparr>, example_world) \<and>
   success (mapLoadEvent
     (run example_env [PostMapLoad [example_tile] 0 1000, Complete 0 None] example_Module)) 0 \<noteq>
     Some True \<and>
   pendingRequest example_TurnstileEvent = None \<and>
   queue example_TurnstileEvent = 2000 # [86401000] \<and>
   Turnstile_admit example_env (example_TurnstileEvent, example_world) =
     (example_TurnstileEvent\<lparr>queue := [86401000]\<rparr>, example_world, 2000, False) \<and>
   Turnstile_processRequests example_env (example_TurnstileEvent, example_world) =
     Turnstile_processRequests example_env
       (example_TurnstileEvent\<lparr>queue := [86401000]\<rparr>, example_world) \<and>
   Turnstile_processRequests example_env (example_TurnstileEvent, example_world) =
     (None,
      example_TurnstileEvent\<lparr>queue := [], pendingRequest := Some example_next_day_request\<rparr>,
      example_world\<lparr>outstanding := [(example_next_day_request, TurnstileDone 86401000)],
                     effects := [Posted example_next_day_request]\<rparr>)"
proof -
  have m: "pendingRequest example_MapLoadEvent = None \<and>
     queue example_MapLoadEvent = \<lparr>id_of = 7, timestamp = 2000\<rparr> # [\<lparr>id_of = 8, timestamp = 3000\<rparr>] \<and>
     success example_MapLoadEvent 0 \<noteq> Some True \<and>
     success example_MapLoadEvent (id_of \<lparr>id_of = 7, timestamp = 2000\<rparr>) = Some True"
    by (simp add: example_MapLoadEvent_def)
  have t: "pendingRequest example_TurnstileEvent = None \<and>
     queue example_TurnstileEvent = 2000 # [86401000] \<and>
     Turnstile_admit example_env (example_TurnstileEvent, example_world) =
       (example_TurnstileEvent\<lparr>queue := [86401000]\<rparr>, example_world, 2000, False)"
    using example_admit_same_day by (simp add: example_TurnstileEvent_def)
  note a = skip_asymmetry [where st = example_MapLoadEvent and env = example_env
      and w = example_world and entry = "\<lparr>id_of = 7, timestamp = 2000\<rparr>"
      and rest = "[\<lparr>id_of = 8, timestamp = 3000\<rparr>]" and ts = example_TurnstileEvent
      and t = 2000 and later = "[86401000]" and ts' = "example_TurnstileEvent\<lparr>queue := [86401000]\<rparr>"
      and w' = example_world and n = 2000
      and as = "[PostMapLoad [example_tile] 0 1000, Complete 0 None]"
      and cfg = example_config and avail = False and quota = False and items = Map.empty,
      folded example_Module_def]
  from a have 0: "success (mapLoadEvent
     (run example_env [PostMapLoad [example_tile] 0 1000, Complete 0 None] example_Module)) 0 \<noteq>
     Some True"
    by blast
  from a m have 1: "MapLoad_processRequests example_env (example_MapLoadEvent, example_world) =
     (None, example_MapLoadEvent\<lparr>queue := [\<lparr>id_of = 8, timestamp = 3000\<rparr>]\<rparr>, example_world)"
    by blast
  from a t have 2: "Turnstile_processRequests example_env (example_TurnstileEvent, example_world) =
     Turnstile_processRequests example_env
       (example_TurnstileEvent\<lparr>queue := [86401000]\<rparr>, example_world)"
    by blast
  show ?thesis using m t 0 1 2 example_next_day_dispatch by simp
qed

subsection \<open>Two runs of the module\<close>

lemma example_first_admit:
  "Turnstile_admit example_env (new_TurnstileEvent example_config\<lparr>queue := [1000]\<rparr>, example_world) =
     (example_failed_TurnstileEvent, example_world\<lparr>uuids := 1\<rparr>, 1000, True)"
  by (simp add: Turnstile_admit_def Let_def new_TurnstileEvent_def example_world_def
        new_World_def example_config_def example_env_def example_uuid_def fetchEventData.simps
        freshAnonId_def example_failed_TurnstileEvent_def)

lemma example_first_dispatch:
  "Turnstile_processRequests example_env
     (new_TurnstileEvent example_config\<lparr>queue := [1000]\<rparr>, example_world) =
     (None, example_failed_TurnstileEvent\<lparr>pendingRequest := Some example_turnstile_request\<rparr>,
      example_failed_World\<lparr>outstanding := [(example_turnstile_request, TurnstileDone 1000)]\<rparr>)"
proof -
  have i: "pendingRequest (new_TurnstileEvent example_config\<lparr>queue := [1000]\<rparr>) = None"
    "queue (new_TurnstileEvent example_config\<lparr>queue := [1000]\<rparr>) \<noteq> []"
    by (simp_all add: new_TurnstileEvent_def)
  have c: "config (example_world\<lparr>uuids := 1\<rparr>) = example_config"
    by (simp add: example_world_def new_World_def)
  show ?thesis
    unfolding Turnstile_processRequests_due [OF i example_first_admit] c example_eventsRequest
    by (simp add: postData_def example_failed_World_def example_world_def new_World_def
          example_turnstile_request_def example_failed_TurnstileEvent_def example_env_def)
qed

lemma example_failed_run:
  "run example_env [PostTurnstile [example_tile] 1000, Complete 0 (Some TransportError)]
     example_Module =
   example_Module\<lparr>turnstileEvent := example_failed_TurnstileEvent, world := example_failed_World\<rparr>"
proof -
  have t: "truthy (ACCESS_TOKEN (config example_world))"
    by (simp add: example_world_def new_World_def example_config_def)
  have q: "queue (new_TurnstileEvent example_config) = []"
    by (simp add: new_TurnstileEvent_def)
  have 1: "step example_env (PostTurnstile [example_tile] 1000) example_Module =
        example_Module\<lparr>turnstileEvent :=
            example_failed_TurnstileEvent\<lparr>pendingRequest := Some example_turnstile_request\<rparr>,
          world := example_failed_World\<lparr>outstanding :=
            [(example_turnstile_request, TurnstileDone 1000)]\<rparr>\<rparr>"
    using t first_party_tile example_first_dispatch q
    by (simp add: example_Module_def new_Module_def postTurnstileEvent_def queueRequest_def
          example_tile_def example_world_def [symmetric])
  have 2: "step example_env (Complete 0 (Some TransportError))
       (example_Module\<lparr>turnstileEvent :=
            example_failed_TurnstileEvent\<lparr>pendingRequest := Some example_turnstile_request\<rparr>,
          world := example_failed_World\<lparr>outstanding :=
            [(example_turnstile_request, TurnstileDone 1000)]\<rparr>\<rparr>) =
       example_Module\<lparr>turnstileEvent := example_failed_TurnstileEvent, world := example_failed_World\<rparr>"
    by (simp add: Turnstile_callback_def remove_nth_def example_failed_TurnstileEvent_def
          example_failed_World_def example_world_def new_World_def)
  show ?thesis by (simp only: run.simps 1 2)
qed

lemma example_two_reports:
  "run example_env [PostMapLoad [example_tile] 1 1000, PostMapLoad [example_tile] 2 2000]
     example_Module =
   example_Module
     \<lparr>mapLoadEvent :=
        \<lparr>eventData = \<lparr>anonId = Some example_uuid, lastSuccess = None,
                       accessToken = Some ''pk.key''\<rparr>,
         queue = [\<lparr>id_of = 2, timestamp = 2000\<rparr>],
         pendingRequest = Some example_pending, success = Map.empty\<rparr>,
      world := example_world\<lparr>uuids := 1, effects := [Posted example_pending],
                 outstanding := [(example_pending, MapLoadDone 1)]\<rparr>\<rparr>"
proof -
  have t: "truthy (ACCESS_TOKEN example_config)" by (simp add: example_config_def)
  have u: "example_uuid \<noteq> []" "length example_uuid = 36" by (simp_all add: example_uuid_def)
  have 1: "step example_env (PostMapLoad [example_tile] 1 1000) example_Module =
        example_Module
     \<lparr>mapLoadEvent :=
        \<lparr>eventData = \<lparr>anonId = Some example_uuid, lastSuccess = None,
                       accessToken = Some ''pk.key''\<rparr>,
         queue = [],
         pendingRequest = Some example_pending, success = Map.empty\<rparr>,
      world := example_world\<lparr>uuids := 1, effects := [Posted example_pending],
                 outstanding := [(example_pending, MapLoadDone 1)]\<rparr>\<rparr>"
    using t first_party_tile
    by (simp add: example_Module_def new_Module_def postMapLoadEvent_def queueRequest_def
          example_tile_def new_World_def new_MapLoadEvent_def MapLoad_processRequests_def
          MapLoad_identify_def fetchEventData.simps freshAnonId_def example_env_def
          example_eventsRequest postData_def example_pending_def example_world_def
          example_uuid_def Let_def)
       (simp add: example_config_def)
  have 2: "step example_env (PostMapLoad [example_tile] 2 2000)
        (example_Module
     \<lparr>mapLoadEvent :=
        \<lparr>eventData = \<lparr>anonId = Some example_uuid, lastSuccess = None,
                       accessToken = Some ''pk.key''\<rparr>,
         queue = [],
         pendingRequest = Some example_pending, success = Map.empty\<rparr>,
      world := example_world\<lparr>uuids := 1, effects := [Posted example_pending],
                 outstanding := [(example_pending, MapLoadDone 1)]\<rparr>\<rparr>) =
        example_Module
     \<lparr>mapLoadEvent :=
        \<lparr>eventData = \<lparr>anonId = Some example_uuid, lastSuccess = None,
                       accessToken = Some ''pk.key''\<rparr>,
         queue = [\<lparr>id_of = 2, timestamp = 2000\<rparr>],
         pendingRequest = Some example_pending, success = Map.empty\<rparr>,
      world := example_world\<lparr>uuids := 1, effects := [Posted example_pending],
                 outstanding := [(example_pending, MapLoadDone 1)]\<rparr>\<rparr>"
    using t first_party_tile
    by (simp add: postMapLoadEvent_def queueRequest_def example_tile_def
          MapLoad_processRequests_def example_world_def new_World_def)
  show ?thesis by (simp only: run.simps 1 2)
qed

subsection \<open>One request at a time\<close>

text \<open>
  Claim C4: at most one request of an instance is outstanding at any time. Called while
  the slot is taken or the queue is empty, \<open>processRequests\<close> of either class returns at
  once and changes nothing: no entry is popped, no event data is touched, no request is
  made. After every sequence of reports, completions and changes of the surroundings,
  the transport holds at most one request of each instance, and the slot of an instance is
  free exactly when the transport holds none of its requests; so an entry is admitted
  only after the callback of the request before it has run.
\<close>

theorem single_request_in_flight:
  "(pendingRequest st \<noteq> None \<or> queue st = [] \<longrightarrow>
      MapLoad_processRequests env (st, w) = (None, st, w)) \<and>
   (pendingRequest ts \<noteq> None \<or> queue ts = [] \<longrightarrow>
      Turnstile_processRequests env (ts, w) = (None, ts, w)) \<and>
   length (mapLoadOutstanding (world (run env as (new_Module cfg avail quota items)))) \<le> 1 \<and>
   length (turnstileOutstanding (world (run env as (new_Module cfg avail quota items)))) \<le> 1 \<and>
   (pendingRequest (mapLoadEvent (run env as (new_Module cfg avail quota items))) = None \<longleftrightarrow>
      mapLoadOutstanding (world (run env as (new_Module cfg avail quota items))) = []) \<and>
   (pendingRequest (turnstileEvent (run env as (new_Module cfg avail quota items))) = None \<longleftrightarrow>
      turnstileOutstanding (world (run env as (new_Module cfg avail quota items))) = [])"
proof -
  let ?m = "run env as (new_Module cfg avail quota items)"
  have "in_flight_ok ?m" by (rule run_in_flight [OF new_Module_in_flight])
  then have "length (mapLoadOutstanding (world ?m)) \<le> 1 \<and>
     length (turnstileOutstanding (world ?m)) \<le> 1 \<and>
     (pendingRequest (mapLoadEvent ?m) = None \<longleftrightarrow> mapLoadOutstanding (world ?m) = []) \<and>
     (pendingRequest (turnstileEvent ?m) = None \<longleftrightarrow> turnstileOutstanding (world ?m) = [])"
    by (auto simp: in_flight_ok_def mapLoad_in_flight_ok_def turnstile_in_flight_ok_def
        split: if_splits)
  then show ?thesis
    by (simp add: MapLoad_processRequests_idle Turnstile_processRequests_idle)
qed

theorem single_request_in_flight_witness:
  "pendingRequest (example_MapLoadEvent\<lparr>pendingRequest := Some example_pending\<rparr>) \<noteq> None \<and>
   MapLoad_processRequests example_env
     (example_MapLoadEvent\<lparr>pendingRequest := Some example_pending\<rparr>, example_world) =
     (None, example_MapLoadEvent\<lparr>pendingRequest := Some example_pending\<rparr>, example_world) \<and>
   pendingRequest (example_TurnstileEvent\<lparr>pendingRequest := Some example_pending\<rparr>) \<noteq> None \<and>
   Turnstile_processRequests example_env
     (example_TurnstileEvent\<lparr>pendingRequest := Some example_pending\<rparr>, example_world) =
     (None, example_TurnstileEvent\<lparr>pendingRequest := Some example_pending\<rparr>, example_world) \<and>
   queue (mapLoadEvent
     (run example_env [PostMapLoad [example_tile] 1 1000, PostMapLoad [example_tile] 2 2000]
        example_Module)) = [\<lparr>id_of = 2, timestamp = 2000\<rparr>] \<and>
   mapLoadOutstanding (world
     (run example_env [PostMapLoad [example_tile] 1 1000, PostMapLoad [example_tile] 2 2000]
        example_Module)) = [(example_pending, MapLoadDone 1)] \<and>
   length (mapLoadOutstanding (world
     (run example_env [PostMapLoad [example_tile] 1 1000, PostMapLoad [example_tile] 2 2000]
        example_Module))) \<le> 1 \<and>
   pendingRequest (mapLoadEvent
     (run example_env [PostMapLoad [example_tile] 1 1000, PostMapLoad [example_tile] 2 2000]
        example_Module)) \<noteq> None"
proof -
  let ?as = "[PostMapLoad [example_tile] 1 1000, PostMapLoad [example_tile] 2 2000]"
  note a = single_request_in_flight [where st = "example_MapLoadEvent\<lparr>pendingRequest := Some example_pending\<rparr>"
      and ts = "example_TurnstileEvent\<lparr>pendingRequest := Some example_pending\<rparr>"
      and env = example_env and w = example_world and as = ?as and cfg = example_config
      and avail = False and quota = False and items = Map.empty,
      folded example_Module_def]
  have o: "mapLoadOutstanding (world (run example_env ?as example_Module)) =
             [(example_pending, MapLoadDone 1)]"
    unfolding example_two_reports by (simp add: mapLoadOutstanding_def)
  have q: "queue (mapLoadEvent (run example_env ?as example_Module)) = [\<lparr>id_of = 2, timestamp = 2000\<rparr>]"
    unfolding example_two_reports by simp
  from a o have p: "pendingRequest (mapLoadEvent (run example_env ?as example_Module)) \<noteq> None"
    by simp
  from a have l: "length (mapLoadOutstanding (world (run example_env ?as example_Module))) \<le> 1"
    by blast
  from a have 1: "MapLoad_processRequests example_env
     (example_MapLoadEvent\<lparr>pendingRequest := Some example_pending\<rparr>, example_world) =
     (None, example_MapLoadEvent\<lparr>pendingRequest := Some example_pending\<rparr>, example_world)"
    by simp
  from a have 2: "Turnstile_processRequests example_env
     (example_TurnstileEvent\<lparr>pendingRequest := Some example_pending\<rparr>, example_world) =
     (None, example_TurnstileEvent\<lparr>pendingRequest := Some example_pending\<rparr>, example_world)"
    by simp
  show ?thesis using 1 2 q o l p by simp
qed

subsection \<open>The identifier 0\<close>

text \<open>
  Claim C9: a map-load entry with identifier 0 is never deduplicated. An idle instance
  whose head entry has identifier 0 sends it whatever \<open>success\<close> holds, also when 0 is marked
  there (provided the events endpoint parses); a callback changes \<open>success\<close> only by marking
  a non-zero identifier after a success; and in every state the module reaches, 0 is not
  marked.
\<close>

theorem subject_zero_never_deduplicated:
  "(pendingRequest st = None \<and> queue st = entry # rest \<and> id_of entry = 0 \<and>
    parseUrl (EVENTS_URL (config w)) = Inr u \<longrightarrow>
      (\<exists>d fx n req.
         MapLoad_processRequests env (st, w) =
           (None, st\<lparr>queue := rest, eventData := d, pendingRequest := Some req\<rparr>,
            w\<lparr>effects := fx @ [Posted req], uuids := n,
              outstanding := outstanding w @ [(req, MapLoadDone 0)]\<rparr>))) \<and>
   (MapLoad_callback env ident err (st, w) = (e, st', w') \<longrightarrow>
      success st' = (if err = None \<and> ident \<noteq> 0 then (success st)(ident \<mapsto> True)
                     else success st)) \<and>
   success (mapLoadEvent (run env as (new_Module cfg avail quota items))) 0 = None"
proof (intro conjI impI)
  assume a: "pendingRequest st = None \<and> queue st = entry # rest \<and> id_of entry = 0 \<and>
    parseUrl (EVENTS_URL (config w)) = Inr u"
  then have nodup: "\<not> (id_of entry \<noteq> 0 \<and> success st (id_of entry) = Some True)" by simp
  from a have "pendingRequest st = None" "queue st = entry # rest"
    "parseUrl (EVENTS_URL (config w)) = Inr u" by simp_all
  from MapLoad_processRequests_send [OF this(1,2) nodup this(3), of env] a
  show "\<exists>d fx n req.
         MapLoad_processRequests env (st, w) =
           (None, st\<lparr>queue := rest, eventData := d, pendingRequest := Some req\<rparr>,
            w\<lparr>effects := fx @ [Posted req], uuids := n,
              outstanding := outstanding w @ [(req, MapLoadDone 0)]\<rparr>)"
    by auto
next
  assume "MapLoad_callback env ident err (st, w) = (e, st', w')"
  then show "success st' = (if err = None \<and> ident \<noteq> 0 then (success st)(ident \<mapsto> True)
                     else success st)"
    by (rule MapLoad_callback_success)
next
  show "success (mapLoadEvent (run env as (new_Module cfg avail quota items))) 0 = None"
    by (rule run_success_zero) (simp add: new_Module_success)
qed

theorem subject_zero_never_deduplicated_witness:
  "pendingRequest (example_MapLoadEvent\<lparr>queue := [\<lparr>id_of = 0, timestamp = 5000\<rparr>],
                                         success := [0 \<mapsto> True]\<rparr>) = None \<and>
   parseUrl (EVENTS_URL (config example_world)) =
     Inr \<lparr>protocol = ''https'', authority = ''events.mapbox.com'', path = ''/events/v2'',
          params = []\<rparr> \<and>
   (\<exists>d fx n req.
      MapLoad_processRequests example_env
        (example_MapLoadEvent\<lparr>queue := [\<lparr>id_of = 0, timestamp = 5000\<rparr>],
                              success := [0 \<mapsto> True]\<rparr>, example_world) =
        (None,
         example_MapLoadEvent\<lparr>queue := [\<lparr>id_of = 0, timestamp = 5000\<rparr>],
                              success := [0 \<mapsto> True]\<rparr>
           \<lparr>queue := [], eventData := d, pendingRequest := Some req\<rparr>,
         example_world\<lparr>effects := fx @ [Posted req], uuids := n,
                         outstanding := outstanding example_world @ [(req, MapLoadDone 0)]\<rparr>)) \<and>
   MapLoad_callback example_env 0 None
     (example_MapLoadEvent\<lparr>queue := [], pendingRequest := Some example_pending\<rparr>, example_world) =
     (None, example_MapLoadEvent\<lparr>queue := []\<rparr>, example_world) \<and>
   success (example_MapLoadEvent\<lparr>queue := []\<rparr>) = [7 \<mapsto> True] \<and>
   success (mapLoadEvent
     (run example_env [PostMapLoad [example_tile] 0 1000, Complete 0 None] example_Module)) 0 = None"
proof -
  let ?st = "example_MapLoadEvent\<lparr>queue := [\<lparr>id_of = 0, timestamp = 5000\<rparr>],
                                   success := [0 \<mapsto> True]\<rparr>"
  let ?u = "\<lparr>protocol = ''https'', authority = ''events.mapbox.com'', path = ''/events/v2'',
          params = []\<rparr>"
  let ?sc = "example_MapLoadEvent\<lparr>queue := [], pendingRequest := Some example_pending\<rparr>"
  have p: "pendingRequest ?st = None" by (simp add: example_MapLoadEvent_def)
  have u: "parseUrl (EVENTS_URL (config example_world)) = Inr ?u"
    by (simp add: example_world_def new_World_def example_config_def parse_events)
  have h: "pendingRequest ?st = None \<and> queue ?st = \<lparr>id_of = 0, timestamp = 5000\<rparr> # [] \<and>
      id_of \<lparr>id_of = 0, timestamp = 5000\<rparr> = 0 \<and> parseUrl (EVENTS_URL (config example_world)) = Inr ?u"
    using p u by simp
  have c: "MapLoad_callback example_env 0 None (?sc, example_world) =
             (None, example_MapLoadEvent\<lparr>queue := []\<rparr>, example_world)"
    by (simp add: MapLoad_callback_def saveEventData.simps example_world_def new_World_def
          MapLoad_processRequests_def example_MapLoadEvent_def)
  note a = subject_zero_never_deduplicated [where st = ?st and w = example_world
      and entry = "\<lparr>id_of = 0, timestamp = 5000\<rparr>" and rest = "[]" and u = ?u
      and env = example_env and as = "[PostMapLoad [example_tile] 0 1000, Complete 0 None]"
      and cfg = example_config and avail = False and quota = False and items = Map.empty,
      folded example_Module_def]
  note b = subject_zero_never_deduplicated [where st = ?sc and w = example_world
      and env = example_env and ident = 0 and err = None and e = None
      and st' = "example_MapLoadEvent\<lparr>queue := []\<rparr>" and w' = example_world]
  from a h have 1: "\<exists>d fx n req.
      MapLoad_processRequests example_env (?st, example_world) =
        (None, ?st\<lparr>queue := [], eventData := d, pendingRequest := Some req\<rparr>,
         example_world\<lparr>effects := fx @ [Posted req], uuids := n,
                         outstanding := outstanding example_world @ [(req, MapLoadDone 0)]\<rparr>)"
    by blast
  from b c have 2: "success (example_MapLoadEvent\<lparr>queue := []\<rparr>) = [7 \<mapsto> True]"
    by (simp add: example_MapLoadEvent_def)
  from a have 3: "success (mapLoadEvent
     (run example_env [PostMapLoad [example_tile] 0 1000, Complete 0 None] example_Module)) 0 = None"
    by blast
  show ?thesis by (intro conjI) (fact p, fact u, fact 1, fact c, fact 2, fact 3)
qed

subsection \<open>A turnstile event without a recorded success\<close>

text \<open>
  Claim C3 counts the absence of a recorded last success among the conditions that make a
  turnstile entry due. The code does not: \<open>dueForEvent\<close> is only raised inside
  \<open>if (this.eventData.lastSuccess)\<close> (line 285), and that statement has no other branch. So
  an idle instance with a valid identifier, a token that has not changed and no last
  success, recorded or stored, drops its entry and makes no request. This is the state the
  instance is in after its first request has failed: every later report is dropped.
\<close>

theorem turnstile_without_last_success_not_sent:
  "validUuid env a \<and> a \<noteq> [] \<and> pendingRequest ts = None \<and> queue ts = [t] \<and>
   eventData ts = \<lparr>anonId = Some a, lastSuccess = None, accessToken = tok\<rparr> \<and>
   (tok = None \<or> tok = ACCESS_TOKEN (config w)) \<and>
   (\<not> storageAvailable w \<or> localStorage w (storageKey (config w)) = None) \<longrightarrow>
     Turnstile_processRequests env (ts, w) = (None, ts\<lparr>queue := []\<rparr>, w)"
proof
  assume a: "validUuid env a \<and> a \<noteq> [] \<and> pendingRequest ts = None \<and> queue ts = [t] \<and>
   eventData ts = \<lparr>anonId = Some a, lastSuccess = None, accessToken = tok\<rparr> \<and>
   (tok = None \<or> tok = ACCESS_TOKEN (config w)) \<and>
   (\<not> storageAvailable w \<or> localStorage w (storageKey (config w)) = None)"
  then have f: "fetchEventData (ts, w) = (ts, w)"
    by (auto simp: fetchEventData.simps)
  from a have "tok = None \<or> tok = ACCESS_TOKEN (config w)" by simp
  then have ad: "Turnstile_admit env (ts, w) = (ts\<lparr>queue := []\<rparr>, w, t, False)"
  proof
    assume "tok = None"
    with a f show ?thesis by (simp add: Turnstile_admit_def Let_def)
  next
    assume "tok = ACCESS_TOKEN (config w)"
    with a f show ?thesis by (simp add: Turnstile_admit_def Let_def)
  qed
  from a have "pendingRequest ts = None" "queue ts \<noteq> []" by simp_all
  from Turnstile_processRequests_skip [OF this ad]
  show "Turnstile_processRequests env (ts, w) = (None, ts\<lparr>queue := []\<rparr>, w)"
    by (simp add: Turnstile_processRequests_idle)
qed

theorem turnstile_without_last_success_not_sent_witness:
  "run example_env [PostTurnstile [example_tile] 1000, Complete 0 (Some TransportError)]
     example_Module =
     example_Module\<lparr>turnstileEvent := example_failed_TurnstileEvent,
                    world := example_failed_World\<rparr> \<and>
   validUuid example_env example_uuid \<and> example_uuid \<noteq> [] \<and>
   eventData example_failed_TurnstileEvent =
     \<lparr>anonId = Some example_uuid, lastSuccess = None, accessToken = Some ''pk.key''\<rparr> \<and>
   Some ''pk.key'' = ACCESS_TOKEN (config example_failed_World) \<and>
   \<not> storageAvailable example_failed_World \<and>
   Turnstile_processRequests example_env
     (example_failed_TurnstileEvent\<lparr>queue := [90000000]\<rparr>, example_failed_World) =
     (None, example_failed_TurnstileEvent, example_failed_World) \<and>
   run example_env [PostTurnstile [example_tile] 1000, Complete 0 (Some TransportError),
                    PostTurnstile [example_tile] 90000000] example_Module =
     example_Module\<lparr>turnstileEvent := example_failed_TurnstileEvent,
                    world := example_failed_World\<rparr> \<and>
   effects example_failed_World = [Posted example_turnstile_request] \<and>
   created (body example_turnstile_request) = 1000"
proof -
  let ?ts = "example_failed_TurnstileEvent\<lparr>queue := [90000000]\<rparr>"
  have h: "validUuid example_env example_uuid \<and> example_uuid \<noteq> [] \<and>
     pendingRequest ?ts = None \<and> queue ?ts = [90000000] \<and>
     eventData ?ts = \<lparr>anonId = Some example_uuid, lastSuccess = None, accessToken = Some ''pk.key''\<rparr> \<and>
     Some ''pk.key'' = ACCESS_TOKEN (config example_failed_World) \<and>
     \<not> storageAvailable example_failed_World"
    by (simp add: example_env_def example_uuid_def example_failed_TurnstileEvent_def
          example_failed_World_def example_world_def new_World_def example_config_def)
  note a = turnstile_without_last_success_not_sent [where env = example_env and a = example_uuid
      and ts = ?ts and t = 90000000 and tok = "Some ''pk.key''" and w = example_failed_World]
  have e: "?ts\<lparr>queue := []\<rparr> = example_failed_TurnstileEvent"
    by (simp add: example_failed_TurnstileEvent_def)
  from a h e have d: "Turnstile_processRequests example_env (?ts, example_failed_World) =
     (None, example_failed_TurnstileEvent, example_failed_World)"
    by simp
  have t: "truthy (ACCESS_TOKEN (config example_failed_World))"
    by (simp add: example_failed_World_def example_world_def new_World_def example_config_def)
  have q: "queue example_failed_TurnstileEvent = []"
    by (simp add: example_failed_TurnstileEvent_def)
  have 3: "step example_env (PostTurnstile [example_tile] 90000000)
        (example_Module\<lparr>turnstileEvent := example_failed_TurnstileEvent,
                       world := example_failed_World\<rparr>) =
        example_Module\<lparr>turnstileEvent := example_failed_TurnstileEvent,
                       world := example_failed_World\<rparr>"
    using t first_party_tile d q
    by (simp add: postTurnstileEvent_def queueRequest_def example_tile_def)
  have r: "run example_env [PostTurnstile [example_tile] 1000, Complete 0 (Some TransportError),
                    PostTurnstile [example_tile] 90000000] example_Module =
     example_Module\<lparr>turnstileEvent := example_failed_TurnstileEvent,
                    world := example_failed_World\<rparr>"
    using example_failed_run 3 by (simp only: run.simps)
  have x: "effects example_failed_World = [Posted example_turnstile_request] \<and>
       created (body example_turnstile_request) = 1000"
    by (simp add: example_failed_World_def example_turnstile_request_def example_request_def)
  have y: "eventData example_failed_TurnstileEvent =
     \<lparr>anonId = Some example_uuid, lastSuccess = None, accessToken = Some ''pk.key''\<rparr>"
    by (simp add: example_failed_TurnstileEvent_def)
  show ?thesis using example_failed_run h d r x y by simp
qed

end
